theory Spec2Isabelle
  imports Main
begin

unbundle bit_operations_syntax

section \<open>babysh.c: constants and the platform's wait-status macros\<close>

definition MAX_PROCESSES :: nat where
  "MAX_PROCESSES = 100"

definition IS_PROCESS_FINISHED :: int where
  "IS_PROCESS_FINISHED = 0"

definition EXIT_FAILURE :: int where
  "EXIT_FAILURE = 1"

definition EXIT_SUCCESS :: int where
  "EXIT_SUCCESS = 0"

text \<open>
  The status word written by \<^verbatim>\<open>waitpid\<close> is a C \<^verbatim>\<open>int\<close>; babysh.c only reads it
  through the macros of \<^verbatim>\<open><sys/wait.h>\<close>. They are written out here with the bit
  layout glibc gives them on Linux (\<^verbatim>\<open>bits/waitstatus.h\<close>): the low seven bits
  hold the terminating signal, bits 8 to 15 the exit code.
\<close>

definition WTERMSIG :: "int \<Rightarrow> int" where
  "WTERMSIG st = st AND 0x7f"

definition WEXITSTATUS :: "int \<Rightarrow> int" where
  "WEXITSTATUS st = drop_bit 8 (st AND 0xff00)"

definition WIFEXITED :: "int \<Rightarrow> bool" where
  "WIFEXITED st = (WTERMSIG st = 0)"

text \<open>\<^verbatim>\<open>((signed char) (((status) & 0x7f) + 1) >> 1) > 0\<close>\<close>

definition WIFSIGNALED :: "int \<Rightarrow> bool" where
  "WIFSIGNALED st =
     (let v = (st AND 0x7f) + 1;
          sc = (if 128 \<le> v then v - 256 else v)
      in 0 < drop_bit 1 sc)"

section \<open>printf's \<^verbatim>\<open>%d\<close> and \<^verbatim>\<open>%s\<close>\<close>

definition digit_char :: "nat \<Rightarrow> char" where
  "digit_char d = ''0123456789'' ! d"

fun show_nat :: "nat \<Rightarrow> string" where
  "show_nat n = (if n < 10 then [digit_char n] else show_nat (n div 10) @ [digit_char (n mod 10)])"

declare show_nat.simps [simp del]

definition show_int :: "int \<Rightarrow> string" where
  "show_int i = (if i < 0 then ''-'' @ show_nat (nat (- i)) else show_nat (nat i))"

text \<open>glibc prints a null pointer given to \<^verbatim>\<open>%s\<close> as \<^verbatim>\<open>(null)\<close>.\<close>

definition show_str :: "string option \<Rightarrow> string" where
  "show_str p = (case p of None \<Rightarrow> ''(null)'' | Some a \<Rightarrow> a)"

definition nl :: string where
  "nl = [CHR 0x0A]"

section \<open>System calls, their replies, and what the user sees\<close>

datatype oflag = O_RDONLY | O_WRONLY | O_WRONLY_CREAT_TRUNC

datatype sighandler = SIG_DFL | SIG_IGN

datatype wopt = WNOHANG | WBLOCK

text \<open>
  Every call babysh.c makes to the operating system or to stdio is recorded as an event,
  together with the value the call returned. \<open>WBLOCK\<close> is the option word 0 of a
  blocking \<^verbatim>\<open>waitpid\<close>.
\<close>

datatype event =
    Printf string
  | Perror string
  | Open "string option" oflag int
  | Fcntl int
  | Fork int
  | Sigaction sighandler
  | Dup2 int int int
  | Execlp "string option" "string list"
  | Execvp "string option" "string list"
  | Waitpid int wopt int
  | Chdir "string option" int
  | Kill int int

text \<open>
  The replies of the operating system are inputs of the model. The four \<open>uninit\<close>
  fields are the indeterminate values that the automatic variables \<^verbatim>\<open>inputFile\<close>,
  \<^verbatim>\<open>outputFile\<close>, \<^verbatim>\<open>wpid\<close> and \<^verbatim>\<open>waitStatus\<close> of \<^verbatim>\<open>cmdExecute\<close> hold before
  their first assignment. \<open>waitpid_nohang e i\<close> is the reply (return value, status word)
  to the non-blocking check the sweep makes for slot \<open>i\<close>; \<open>waitpid_block\<close> is the reply
  to the foreground wait, its second component being the content of \<^verbatim>\<open>waitStatus\<close>
  after the call.
\<close>

record env =
  open_ret :: "string option \<Rightarrow> oflag \<Rightarrow> int"
  fork_ret :: int
  dup2_ret :: "int \<Rightarrow> int \<Rightarrow> int"
  exec_fails :: bool
  waitpid_block :: "int \<times> int"
  waitpid_nohang :: "nat \<Rightarrow> int \<times> int"
  chdir_ret :: "string option \<Rightarrow> int"
  getenv_HOME :: "string option"
  kill_ret :: "int \<Rightarrow> int"
  uninit_inputFile :: int
  uninit_outputFile :: int
  uninit_wpid :: int
  uninit_waitStatus :: int

text \<open>The variables of \<^verbatim>\<open>main\<close> that outlive one prompt cycle.\<close>

record shell =
  status :: int
  "termination" :: int
  bgOpen :: "int list"

text \<open>
  A C function of the shell either returns to its caller, or ends the process
  (\<^verbatim>\<open>exit\<close>), or is replaced by another program image (a successful \<^verbatim>\<open>exec\<close>), or
  reads \<^verbatim>\<open>bgOpen\<close> past its last element.
\<close>

datatype outcome = Returned shell | Exited int | Replaced | OutOfBounds

definition init_shell :: shell where
  "init_shell = \<lparr> status = 0, termination = 0, bgOpen = replicate MAX_PROCESSES (- 1) \<rparr>"

section \<open>The reap sweep of \<^verbatim>\<open>main\<close>\<close>

text \<open>The body of the inner \<^verbatim>\<open>while\<close> loop (lines 72 to 106) for slot \<open>bgCounter\<close>.\<close>

definition reapSlot :: "env \<Rightarrow> nat \<Rightarrow> shell \<Rightarrow> shell \<times> event list" where
  "reapSlot e bgCounter s =
     (let curPid = bgOpen s ! bgCounter in
      if curPid \<noteq> IS_PROCESS_FINISHED then
        (let (wpid, bgStatus) = waitpid_nohang e bgCounter in
         if wpid = - 1 then
           (s\<lparr>status := EXIT_FAILURE\<rparr>,
            [Waitpid curPid WNOHANG wpid, Perror (''wait failed'' @ nl)])
         else if 0 < wpid then
           (s\<lparr>bgOpen := (bgOpen s)[bgCounter := IS_PROCESS_FINISHED]\<rparr>,
            [Waitpid curPid WNOHANG wpid,
             Printf (''background pid '' @ show_int curPid @ '' is done: '')]
            @ (if WIFEXITED bgStatus
               then [Printf (''exit value '' @ show_int (WEXITSTATUS bgStatus) @ nl)] else [])
            @ (if WIFSIGNALED bgStatus
               then [Printf (''terminated by signal '' @ show_int (WTERMSIG bgStatus) @ nl)]
               else []))
         else (s, [Waitpid curPid WNOHANG wpid]))
      else (s, []))"

text \<open>
  The loop \<^verbatim>\<open>while (bgOpen[bgCounter] != -1)\<close> (lines 71 to 108). The array has
  \<open>length (bgOpen s)\<close> elements; the loop itself has no bound.
\<close>

function reap :: "env \<Rightarrow> nat \<Rightarrow> shell \<Rightarrow> outcome \<times> event list" where
  "reap e bgCounter s =
     (if length (bgOpen s) \<le> bgCounter then (OutOfBounds, [])
      else if bgOpen s ! bgCounter \<noteq> - 1 then
        (let (s', evs) = reapSlot e bgCounter s;
             (r, evs') = reap e (Suc bgCounter) s'
         in (r, evs @ evs'))
      else (Returned s, []))"
  by pat_completeness auto
termination
proof (relation "measure (\<lambda>(e, i, s). length (bgOpen s) - i)")
  show "wf (measure (\<lambda>(e, i, s). length (bgOpen s) - i))"
    by simp
next
  fix e :: env and bgCounter :: nat and s :: shell and x :: "shell \<times> event list"
    and s' :: shell and evs :: "event list"
  assume a: "\<not> length (bgOpen s) \<le> bgCounter" and x: "x = reapSlot e bgCounter s"
    and p: "(s', evs) = x"
  from x p have "s' = fst (reapSlot e bgCounter s)"
    by (metis fst_conv)
  then have "length (bgOpen s') = length (bgOpen s)"
    by (simp add: reapSlot_def Let_def split: prod.splits)
  with a show "((e, Suc bgCounter, s'), (e, bgCounter, s)) \<in> measure (\<lambda>(e, i, s). length (bgOpen s) - i)"
    by simp
qed

declare reap.simps [simp del]

section \<open>The \<^verbatim>\<open>status\<close> builtin\<close>

definition cmdStatus :: "int \<Rightarrow> int \<Rightarrow> event list" where
  "cmdStatus st term =
     (if 0 < term then [Printf (''terminated by signal '' @ show_int term @ nl)]
      else [Printf (''exit value '' @ show_int st @ nl)])"

section \<open>The argument array\<close>

text \<open>
  \<^verbatim>\<open>char *args[]\<close> is modelled as the list of its elements: \<open>Some a\<close> for a pointer to
  the token \<open>a\<close>, \<open>None\<close> for the null pointer. The scanning loops stop at the first null
  pointer, so elements behind it (stale tokens of the same line, as behind a stripped
  \<^verbatim>\<open>&\<close>) can still be read by index. An index past the modelled elements reads as null.
\<close>

type_synonym args = "string option list"

definition argAt :: "args \<Rightarrow> nat \<Rightarrow> string option" where
  "argAt as i = (if i < length as then as ! i else None)"

text \<open>The argument vector a program is started with: the tokens before the first null.\<close>

fun argv_of :: "args \<Rightarrow> string list" where
  "argv_of [] = []"
| "argv_of (None # _) = []"
| "argv_of (Some a # as) = a # argv_of as"

fun isInputRedirected :: "args \<Rightarrow> bool" where
  "isInputRedirected [] = False"
| "isInputRedirected (None # _) = False"
| "isInputRedirected (Some a # as) = (if a = ''<'' then True else isInputRedirected as)"

fun isOutputRedirected :: "args \<Rightarrow> bool" where
  "isOutputRedirected [] = False"
| "isOutputRedirected (None # _) = False"
| "isOutputRedirected (Some a # as) = (if a = ''>'' then True else isOutputRedirected as)"

text \<open>\<^verbatim>\<open>isBackground\<close> overwrites the \<^verbatim>\<open>&\<close> it finds with the null pointer.\<close>

fun isBackground :: "args \<Rightarrow> bool \<times> args" where
  "isBackground [] = (False, [])"
| "isBackground (None # as) = (False, None # as)"
| "isBackground (Some a # as) =
     (if a = ''&'' then (True, None # as)
      else (let (b, as') = isBackground as in (b, Some a # as')))"

section \<open>\<^verbatim>\<open>cmdExecute\<close>\<close>

subsection \<open>Opening the files, before the fork (lines 379 to 431)\<close>

text \<open>
  Each block takes the pair (\<^verbatim>\<open>inputFile\<close>, \<^verbatim>\<open>outputFile\<close>) and gives the events of
  the block and the new pair, or \<open>None\<close> when the block ends in
  \<^verbatim>\<open>*status = EXIT_FAILURE; return;\<close>.
\<close>

definition openNull :: "env \<Rightarrow> bool \<Rightarrow> bool \<Rightarrow> int \<times> int \<Rightarrow> event list \<times> (int \<times> int) option" where
  "openNull e redirectInput redirectOutput files =
     (let (inputFile0, outputFile0) = files;
          (inputFile, ev1) =
            (if \<not> redirectInput
             then (let fd = open_ret e (Some ''/dev/null'') O_RDONLY
                   in (fd, [Open (Some ''/dev/null'') O_RDONLY fd]))
             else (inputFile0, []));
          (outputFile, ev2) =
            (if \<not> redirectOutput
             then (let fd = open_ret e (Some ''/dev/null'') O_WRONLY
                   in (fd, [Open (Some ''/dev/null'') O_WRONLY fd]))
             else (outputFile0, []))
      in if inputFile = - 1 \<or> outputFile = - 1
         then (ev1 @ ev2 @ [Printf (''cannot open /dev/null'' @ nl)], None)
         else (ev1 @ ev2 @ [Fcntl inputFile, Fcntl outputFile], Some (inputFile, outputFile)))"

definition openInput :: "env \<Rightarrow> args \<Rightarrow> int \<times> int \<Rightarrow> event list \<times> (int \<times> int) option" where
  "openInput e as files =
     (let inputFile = open_ret e (argAt as 2) O_RDONLY in
      if inputFile = - 1
      then ([Open (argAt as 2) O_RDONLY inputFile,
             Printf (''File Error: cannot open '' @ show_str (argAt as 2) @ '' for input'' @ nl)],
            None)
      else ([Open (argAt as 2) O_RDONLY inputFile, Fcntl inputFile],
            Some (inputFile, snd files)))"

definition openOutput :: "env \<Rightarrow> args \<Rightarrow> int \<times> int \<Rightarrow> event list \<times> (int \<times> int) option" where
  "openOutput e as files =
     (let outputFile = open_ret e (argAt as 2) O_WRONLY_CREAT_TRUNC in
      if outputFile = - 1
      then ([Open (argAt as 2) O_WRONLY_CREAT_TRUNC outputFile,
             Printf (''File Error: cannot open '' @ show_str (argAt as 2) @ '' for ouput'' @ nl)],
            None)
      else ([Open (argAt as 2) O_WRONLY_CREAT_TRUNC outputFile, Fcntl outputFile],
            Some (fst files, outputFile)))"

definition openFiles ::
  "env \<Rightarrow> bool \<Rightarrow> bool \<Rightarrow> bool \<Rightarrow> args \<Rightarrow> event list \<times> (int \<times> int) option" where
  "openFiles e runInBackground redirectInput redirectOutput as =
     (case (if runInBackground
            then openNull e redirectInput redirectOutput (uninit_inputFile e, uninit_outputFile e)
            else ([], Some (uninit_inputFile e, uninit_outputFile e))) of
        (ev1, None) \<Rightarrow> (ev1, None)
      | (ev1, Some f1) \<Rightarrow>
          (case (if redirectInput then openInput e as f1 else ([], Some f1)) of
             (ev2, None) \<Rightarrow> (ev1 @ ev2, None)
           | (ev2, Some f2) \<Rightarrow>
               (case (if redirectOutput then openOutput e as f2 else ([], Some f2)) of
                  (ev3, None) \<Rightarrow> (ev1 @ ev2 @ ev3, None)
                | (ev3, Some f3) \<Rightarrow> (ev1 @ ev2 @ ev3, Some f3))))"

subsection \<open>The child after the fork (lines 440 to 504)\<close>

definition child ::
  "env \<Rightarrow> bool \<Rightarrow> bool \<Rightarrow> bool \<Rightarrow> args \<Rightarrow> int \<times> int \<Rightarrow> outcome \<times> event list" where
  "child e runInBackground redirectInput redirectOutput as files =
     (let (inputFile, outputFile) = files;
          sig = [Sigaction (if runInBackground then SIG_IGN else SIG_DFL)];
          exec =
            (if redirectInput \<or> redirectOutput
             then [Execlp (argAt as 0) (argv_of [argAt as 0])]
             else [Execvp (argAt as 0) (argv_of as)]);
          run =
            (if exec_fails e
             then (Exited EXIT_FAILURE,
                   exec @ [Printf (''Execution Error: '' @ show_str (argAt as 0)
                                   @ '' is not a valid command'' @ nl)])
             else (Replaced, exec))
      in if runInBackground then
           (if dup2_ret e inputFile 0 = - 1
            then (Exited EXIT_FAILURE,
                  sig @ [Dup2 inputFile 0 (dup2_ret e inputFile 0), Perror ''dup2 failed''])
            else if dup2_ret e outputFile 1 = - 1
            then (Exited EXIT_FAILURE,
                  sig @ [Dup2 inputFile 0 (dup2_ret e inputFile 0),
                         Dup2 outputFile 1 (dup2_ret e outputFile 1), Perror ''dup2 failed''])
            else (fst run,
                  sig @ [Dup2 inputFile 0 (dup2_ret e inputFile 0),
                         Dup2 outputFile 1 (dup2_ret e outputFile 1)] @ snd run))
         else if redirectInput \<or> redirectOutput then
           (let ev1 = (if redirectInput then [Dup2 inputFile 0 (dup2_ret e inputFile 0)] else []);
                ev2 = (if redirectOutput then [Dup2 outputFile 1 (dup2_ret e outputFile 1)] else []);
                redirectFd = (if redirectOutput then dup2_ret e outputFile 1
                              else dup2_ret e inputFile 0)
            in if redirectFd = - 1
               then (Exited EXIT_FAILURE, sig @ ev1 @ ev2 @ [Perror ''dup2''])
               else (fst run, sig @ ev1 @ ev2 @ snd run))
         else (fst run, sig @ snd run))"

subsection \<open>The parent after the fork (lines 505 to 550)\<close>

text \<open>The loop \<^verbatim>\<open>while (bgCounter < MAX_PROCESSES)\<close>; \<open>None\<close> when it ends without returning.\<close>

function recordJob :: "int \<Rightarrow> int list \<Rightarrow> nat \<Rightarrow> int list option" where
  "recordJob cpid bg bgCounter =
     (if bgCounter < MAX_PROCESSES then
        (if bg ! bgCounter < 1 then Some (bg[bgCounter := cpid])
         else recordJob cpid bg (Suc bgCounter))
      else None)"
  by pat_completeness auto
termination
  by (relation "measure (\<lambda>(cpid, bg, i). MAX_PROCESSES - i)") auto

declare recordJob.simps [simp del]

text \<open>The code both paths share (lines 528 to 549).\<close>

definition waitResult :: "int \<Rightarrow> int \<Rightarrow> shell \<Rightarrow> shell \<times> event list" where
  "waitResult wpid waitStatus s =
     (let (s1, ev1) =
            (if wpid = - 1 then (s\<lparr>status := EXIT_FAILURE\<rparr>, [Perror ''wait failed''])
             else (s, []));
          s2 = (if WIFEXITED waitStatus
                then s1\<lparr>status := WEXITSTATUS waitStatus, termination := 0\<rparr> else s1);
          (s3, ev3) =
            (if WIFSIGNALED waitStatus
             then (s2\<lparr>termination := WTERMSIG waitStatus\<rparr>,
                   [Printf (''terminated by signal '' @ show_int (WTERMSIG waitStatus) @ nl)])
             else (s2, []))
      in (s3, ev1 @ ev3))"

definition parent :: "env \<Rightarrow> bool \<Rightarrow> int \<Rightarrow> shell \<Rightarrow> outcome \<times> event list" where
  "parent e runInBackground cpid s =
     (if runInBackground then
        (case recordJob cpid (bgOpen s) 0 of
           Some bg' \<Rightarrow>
             (Returned (s\<lparr>bgOpen := bg'\<rparr>),
              [Printf (''background pid is '' @ show_int cpid @ nl)])
         | None \<Rightarrow>
             (let (s', evs) = waitResult (uninit_wpid e) (uninit_waitStatus e) s
              in (Returned s', [Printf (''background pid is '' @ show_int cpid @ nl)] @ evs)))
      else
        (let (wpid, waitStatus) = waitpid_block e;
             (s', evs) = waitResult wpid waitStatus s
         in (Returned s', [Waitpid cpid WBLOCK wpid] @ evs)))"

subsection \<open>The whole function\<close>

definition cmdExecute :: "env \<Rightarrow> args \<Rightarrow> shell \<Rightarrow> outcome \<times> event list" where
  "cmdExecute e as0 s =
     (let redirectInput = isInputRedirected as0;
          redirectOutput = isOutputRedirected as0;
          (runInBackground, as) = isBackground as0
      in case openFiles e runInBackground redirectInput redirectOutput as of
           (evs, None) \<Rightarrow> (Returned (s\<lparr>status := EXIT_FAILURE\<rparr>), evs)
         | (evs, Some files) \<Rightarrow>
             (let cpid = fork_ret e in
              if cpid = - 1 then (Returned s, evs @ [Fork cpid, Perror ''fork failed''])
              else if cpid = 0 then
                (let (r, cevs) = child e runInBackground redirectInput redirectOutput as files
                 in (r, evs @ [Fork cpid] @ cevs))
              else if 0 < cpid then
                (let (r, pevs) = parent e runInBackground cpid s
                 in (r, evs @ [Fork cpid] @ pevs))
              else (Returned s, evs @ [Fork cpid])))"

section \<open>The other builtins and the dispatch\<close>

definition cmdChangeDir :: "env \<Rightarrow> args \<Rightarrow> shell \<Rightarrow> shell \<times> event list" where
  "cmdChangeDir e as s =
     (let homeDir = getenv_HOME e in
      if argAt as 1 = None then (s, [Chdir homeDir (chdir_ret e homeDir)])
      else if chdir_ret e (argAt as 1) = - 1
      then (s\<lparr>status := EXIT_FAILURE\<rparr>,
            [Chdir (argAt as 1) (chdir_ret e (argAt as 1)),
             Printf (''cd: '' @ show_str (argAt as 1) @ '': No such file or directory'' @ nl)])
      else (s, [Chdir (argAt as 1) (chdir_ret e (argAt as 1))]))"

text \<open>
  The loop of \<^verbatim>\<open>cmdExit\<close> (lines 328 to 338): the events, and whether the loop
  stayed inside the array.
\<close>

function killAll :: "env \<Rightarrow> int list \<Rightarrow> nat \<Rightarrow> bool \<times> event list" where
  "killAll e bg bgCounter =
     (if length bg \<le> bgCounter then (False, [])
      else if bg ! bgCounter \<noteq> - 1 then
        (let curPid = bg ! bgCounter;
             evs = (if curPid \<noteq> IS_PROCESS_FINISHED
                    then (if kill_ret e curPid = - 1
                          then [Kill curPid (kill_ret e curPid), Perror ''kill failed'']
                          else [Kill curPid (kill_ret e curPid)])
                    else []);
             (ok, evs') = killAll e bg (Suc bgCounter)
         in (ok, evs @ evs'))
      else (True, []))"
  by pat_completeness auto
termination
  by (relation "measure (\<lambda>(e, bg, i). length bg - i)") auto

declare killAll.simps [simp del]

definition cmdExit :: "env \<Rightarrow> shell \<Rightarrow> outcome \<times> event list" where
  "cmdExit e s =
     (let (ok, evs) = killAll e (bgOpen s) 0
      in if ok then (Exited EXIT_SUCCESS, evs) else (OutOfBounds, evs))"

definition processArgs :: "env \<Rightarrow> args \<Rightarrow> shell \<Rightarrow> outcome \<times> event list" where
  "processArgs e as s =
     (case argAt as 0 of
        None \<Rightarrow> (Returned s, [])
      | Some a0 \<Rightarrow>
          if (case a0 of [] \<Rightarrow> False | c # _ \<Rightarrow> c = CHR ''#'') then (Returned s, [])
          else if a0 = ''cd'' then (let (s', evs) = cmdChangeDir e as s in (Returned s', evs))
          else if a0 = ''status'' then (Returned s, cmdStatus (status s) (termination s))
          else if a0 = ''exit'' then cmdExit e s
          else cmdExecute e as s)"

section \<open>The states the shell can be in\<close>

text \<open>
  \<^verbatim>\<open>main\<close> starts from \<open>init_shell\<close> and then, for ever, runs one reap sweep from slot 0
  and hands one parsed line to \<^verbatim>\<open>processArgs\<close>; only a call that returns lets the
  loop go on.
\<close>

inductive reachable :: "shell \<Rightarrow> bool" where
  start: "reachable init_shell"
| sweep: "reachable s \<Longrightarrow> reap e 0 s = (Returned s', evs) \<Longrightarrow> reachable s'"
| command: "reachable s \<Longrightarrow> processArgs e as s = (Returned s', evs) \<Longrightarrow> reachable s'"

text \<open>
  What every such state satisfies: the table has its \<open>MAX_PROCESSES\<close> slots, each
  holding -1 (Unused), 0 (Empty) or a pid, and the stored signal number is not negative.
\<close>

definition shell_ok :: "shell \<Rightarrow> bool" where
  "shell_ok s \<longleftrightarrow>
     length (bgOpen s) = MAX_PROCESSES \<and> list_all (\<lambda>x. - 1 \<le> x) (bgOpen s) \<and> 0 \<le> termination s"

text \<open>The state a call returned with (the initial state when it did not return).\<close>

fun the_Returned :: "outcome \<Rightarrow> shell" where
  "the_Returned (Returned s) = s"
| "the_Returned _ = init_shell"

text \<open>All text written to standard output by a list of events.\<close>

fun stdout_of :: "event list \<Rightarrow> string" where
  "stdout_of [] = []"
| "stdout_of (Printf m # evs) = m @ stdout_of evs"
| "stdout_of (_ # evs) = stdout_of evs"

section \<open>Concrete replies of the operating system and concrete states, for the worked examples\<close>

text \<open>
  Everything succeeds: \<^verbatim>\<open>open\<close> gives descriptor 3, \<^verbatim>\<open>fork\<close> gives the parent the child
  pid 4242, the foreground child exits with code 7 (status word \<open>0x700\<close>), no background
  job has finished yet, and the unassigned variables hold 0.
\<close>

definition env0 :: env where
  "env0 = \<lparr> open_ret = (\<lambda>p f. 3), fork_ret = 4242, dup2_ret = (\<lambda>old new. new),
            exec_fails = False, waitpid_block = (4242, 0x700),
            waitpid_nohang = (\<lambda>i. (0, 0)), chdir_ret = (\<lambda>p. 0),
            getenv_HOME = Some ''/root'', kill_ret = (\<lambda>p. 0),
            uninit_inputFile = 0, uninit_outputFile = 0, uninit_wpid = 0,
            uninit_waitStatus = 0 \<rparr>"

text \<open>Every \<^verbatim>\<open>open\<close> fails.\<close>

definition env_open_fails :: env where
  "env_open_fails = env0\<lparr>open_ret := (\<lambda>p f. - 1)\<rparr>"

text \<open>The foreground child is killed by signal 9.\<close>

definition env_killed :: env where
  "env_killed = env0\<lparr>waitpid_block := (4242, 9)\<rparr>"


text \<open>The unassigned \<^verbatim>\<open>wpid\<close> and \<^verbatim>\<open>waitStatus\<close> hold -1 and 9.\<close>

definition env_garbage :: env where
  "env_garbage = env0\<lparr>uninit_wpid := - 1, uninit_waitStatus := 9\<rparr>"

text \<open>
  A table with jobs 11, 12 and 13 and an Empty slot; the last foreground command exited
  with code 7. In \<open>env_sweep\<close> job 12 has exited with code 3 and job 13 was killed by
  signal 9; in \<open>env_sweep_fails\<close> the check of job 13 fails.
\<close>

definition sweep_shell :: shell where
  "sweep_shell = \<lparr> status = 7, termination = 0,
                   bgOpen = [11, 0, 12, 13] @ replicate 96 (- 1) \<rparr>"

definition env_sweep :: env where
  "env_sweep = env0\<lparr>waitpid_nohang :=
                 (\<lambda>i. if i = 2 then (12, 0x300) else if i = 3 then (13, 9) else (0, 0))\<rparr>"

definition env_sweep_fails :: env where
  "env_sweep_fails = env0\<lparr>waitpid_nohang := (\<lambda>i. if i = 3 then (- 1, 0) else (0, 0))\<rparr>"

text \<open>
  The state after a foreground command that exited with code 7 and \<open>n\<close> background
  launches, with pids 1000, 1001, ..., none of them reaped yet.
\<close>

definition filled :: "nat \<Rightarrow> shell" where
  "filled n = \<lparr> status = 7, termination = 0,
               bgOpen = map (\<lambda>i. 1000 + int i) [0..<n] @ replicate (MAX_PROCESSES - n) (- 1) \<rparr>"

definition full_shell :: shell where
  "full_shell = filled MAX_PROCESSES"

text \<open>
  Three jobs launched, of which the second (pid 1001) has finished, as \<open>env_second_done\<close>
  tells the sweep, and been reaped.
\<close>

definition tomb_shell :: shell where
  "tomb_shell = \<lparr> status = 7, termination = 0,
                  bgOpen = [1000, 0, 1002] @ replicate 97 (- 1) \<rparr>"

definition env_second_done :: env where
  "env_second_done = env0\<lparr>waitpid_nohang := (\<lambda>i. if i = 1 then (1001, 0) else (0, 0))\<rparr>"

section \<open>Facts about the wait-status macros\<close>

lemma WTERMSIG_range: "0 \<le> WTERMSIG st \<and> WTERMSIG st \<le> 127"
  by (simp add: WTERMSIG_def AND_upper2)

lemma WIFEXITED_not_WIFSIGNALED: "WIFEXITED st \<Longrightarrow> \<not> WIFSIGNALED st"
  by (simp add: WIFEXITED_def WIFSIGNALED_def WTERMSIG_def Let_def)

lemma WIFSIGNALED_WTERMSIG: "WIFSIGNALED st \<Longrightarrow> 0 < WTERMSIG st"
  using WTERMSIG_range [of st]
  by (auto simp: WIFSIGNALED_def WTERMSIG_def Let_def drop_bit_eq_div split: if_splits)

section \<open>Facts about the phases of \<^verbatim>\<open>cmdExecute\<close>\<close>

lemmas openFiles_defs = openFiles_def openNull_def openInput_def openOutput_def Let_def

lemma openFiles_events:
  assumes "openFiles e bg ri ro as = (evs, r)" and "ev \<in> set evs"
  shows "(\<exists>p f fd. ev = Open p f fd) \<or> (\<exists>fd. ev = Fcntl fd) \<or> (\<exists>m. ev = Printf m)"
  using assms
  by (auto simp: openFiles_defs split: if_splits prod.splits option.splits)

lemma openFiles_failed_open:
  assumes "openFiles e bg ri ro as = (evs, r)" and "Open p f (- 1) \<in> set evs"
  shows "r = None"
  using assms
  by (auto simp: openFiles_defs split: if_splits prod.splits option.splits)

lemma openFiles_None_reports:
  assumes "openFiles e bg ri ro as = (evs, None)"
  shows "evs \<noteq> [] \<and> (\<exists>m. last evs = Printf m)"
  using assms
  by (auto simp: openFiles_defs split: if_splits prod.splits option.splits)

lemma openFiles_Some_silent:
  assumes "openFiles e bg ri ro as = (evs, Some files)"
  shows "stdout_of evs = []"
  using assms
  by (auto simp: openFiles_defs split: if_splits prod.splits option.splits)





lemma cmdExecute_abort:
  assumes "openFiles e (fst (isBackground as)) (isInputRedirected as) (isOutputRedirected as)
             (snd (isBackground as)) = (ev0, None)"
  shows "cmdExecute e as s = (Returned (s\<lparr>status := EXIT_FAILURE\<rparr>), ev0)"
  using assms by (simp add: cmdExecute_def split_beta)

lemma cmdExecute_forked:
  assumes "openFiles e (fst (isBackground as)) (isInputRedirected as) (isOutputRedirected as)
             (snd (isBackground as)) = (ev0, Some files)"
  shows "cmdExecute e as s =
     (if fork_ret e = - 1 then (Returned s, ev0 @ [Fork (fork_ret e), Perror ''fork failed''])
      else if fork_ret e = 0 then
        (fst (child e (fst (isBackground as)) (isInputRedirected as) (isOutputRedirected as)
                (snd (isBackground as)) files),
         ev0 @ [Fork (fork_ret e)] @
         snd (child e (fst (isBackground as)) (isInputRedirected as) (isOutputRedirected as)
                (snd (isBackground as)) files))
      else if 0 < fork_ret e then
        (fst (parent e (fst (isBackground as)) (fork_ret e) s),
         ev0 @ [Fork (fork_ret e)] @ snd (parent e (fst (isBackground as)) (fork_ret e) s))
      else (Returned s, ev0 @ [Fork (fork_ret e)]))"
  using assms by (simp add: cmdExecute_def split_beta Let_def)

lemma cmdExecute_elim:
  assumes "cmdExecute e as s = (r, evs)"
  obtains
    (abort) "openFiles e (fst (isBackground as)) (isInputRedirected as) (isOutputRedirected as)
               (snd (isBackground as)) = (evs, None)"
      and "r = Returned (s\<lparr>status := EXIT_FAILURE\<rparr>)"
  | (nofork) ev0 files where
      "openFiles e (fst (isBackground as)) (isInputRedirected as) (isOutputRedirected as)
         (snd (isBackground as)) = (ev0, Some files)"
      and "fork_ret e < 0" and "r = Returned s"
      and "evs = ev0 @ Fork (fork_ret e) # (if fork_ret e = - 1 then [Perror ''fork failed''] else [])"
  | (child) ev0 files cevs where
      "openFiles e (fst (isBackground as)) (isInputRedirected as) (isOutputRedirected as)
         (snd (isBackground as)) = (ev0, Some files)"
      and "fork_ret e = 0"
      and "child e (fst (isBackground as)) (isInputRedirected as) (isOutputRedirected as)
             (snd (isBackground as)) files = (r, cevs)"
      and "evs = ev0 @ Fork 0 # cevs"
  | (parent) ev0 files pevs where
      "openFiles e (fst (isBackground as)) (isInputRedirected as) (isOutputRedirected as)
         (snd (isBackground as)) = (ev0, Some files)"
      and "0 < fork_ret e"
      and "parent e (fst (isBackground as)) (fork_ret e) s = (r, pevs)"
      and "evs = ev0 @ Fork (fork_ret e) # pevs"
proof (cases "openFiles e (fst (isBackground as)) (isInputRedirected as) (isOutputRedirected as)
               (snd (isBackground as))")
  case (Pair ev0 res)
  show thesis
  proof (cases res)
    case None
    with Pair have "cmdExecute e as s = (Returned (s\<lparr>status := EXIT_FAILURE\<rparr>), ev0)"
      by (simp add: cmdExecute_abort)
    with assms have "r = Returned (s\<lparr>status := EXIT_FAILURE\<rparr>)" and "evs = ev0"
      by simp_all
    with Pair None show thesis
      by (intro abort) simp_all
  next
    case (Some files)
    with Pair have of: "openFiles e (fst (isBackground as)) (isInputRedirected as)
        (isOutputRedirected as) (snd (isBackground as)) = (ev0, Some files)"
      by simp
    note eq = cmdExecute_forked [OF of, of s]
    consider "fork_ret e < 0" | "fork_ret e = 0" | "0 < fork_ret e"
      by linarith
    then show thesis
    proof cases
      case 1
      with eq assms have "r = Returned s"
        and "evs = ev0 @ Fork (fork_ret e) # (if fork_ret e = - 1 then [Perror ''fork failed''] else [])"
        by (simp_all split: if_splits)
      with of 1 show thesis
        by (intro nofork)
    next
      case 2
      with eq assms have "child e (fst (isBackground as)) (isInputRedirected as) (isOutputRedirected as)
             (snd (isBackground as)) files = (r, snd (child e (fst (isBackground as)) (isInputRedirected as) (isOutputRedirected as)
             (snd (isBackground as)) files))"
        and "evs = ev0 @ Fork 0 # snd (child e (fst (isBackground as)) (isInputRedirected as) (isOutputRedirected as)
             (snd (isBackground as)) files)"
        by (simp_all add: prod_eq_iff)
      with of 2 show thesis
        by (intro child)
    next
      case 3
      with eq assms have "parent e (fst (isBackground as)) (fork_ret e) s = (r, snd (parent e (fst (isBackground as)) (fork_ret e) s))"
        and "evs = ev0 @ Fork (fork_ret e) # snd (parent e (fst (isBackground as)) (fork_ret e) s)"
        by (simp_all add: prod_eq_iff)
      with of 3 show thesis
        by (intro parent)
    qed
  qed
qed

lemma child_events:
  assumes "child e bg ri ro as files = (r, cevs)" and "ev \<in> set cevs"
  shows "(\<exists>h. ev = Sigaction h) \<or> (\<exists>a b c. ev = Dup2 a b c) \<or> (\<exists>m. ev = Perror m)
         \<or> (\<exists>m. ev = Printf m) \<or> ev = Execlp (argAt as 0) (argv_of [argAt as 0]) \<and> (ri \<or> ro)
         \<or> ev = Execvp (argAt as 0) (argv_of as) \<and> \<not> ri \<and> \<not> ro"
proof -
  obtain i o' where f: "files = (i, o')" by (cases files)
  show ?thesis
    using assms unfolding f child_def Let_def
    by (auto split: if_splits)
qed
lemma child_never_returns:
  assumes "child e bg ri ro as files = (r, cevs)"
  shows "r = Replaced \<or> r = Exited EXIT_FAILURE"
proof -
  obtain i o' where f: "files = (i, o')" by (cases files)
  show ?thesis
    using assms unfolding f child_def Let_def
    by (auto split: if_splits)
qed



lemma parent_events:
  assumes "parent e bg cpid s = (r, pevs)" and "ev \<in> set pevs"
  shows "(\<exists>m. ev = Printf m) \<or> (\<exists>m. ev = Perror m)
         \<or> (ev = Waitpid cpid WBLOCK (fst (waitpid_block e)) \<and> \<not> bg)"
  using assms
  by (auto simp: parent_def waitResult_def Let_def split: if_splits prod.splits option.splits)

section \<open>Open failures\<close>

lemma cat_missing_run:
  "cmdExecute env_open_fails [Some ''cat'', Some ''<'', Some ''missing''] init_shell
   = (Returned (init_shell\<lparr>status := 1\<rparr>),
      [Open (Some ''missing'') O_RDONLY (- 1),
       Printf (''File Error: cannot open missing for input'' @ nl)])"
  by (simp add: cmdExecute_def openFiles_defs env_open_fails_def env0_def argAt_def
      show_str_def EXIT_FAILURE_def)

text \<open>
  C1, as stated, fails: \<^verbatim>\<open>cat < missing\<close> typed into the fresh shell, with the
  \<^verbatim>\<open>open\<close> of the target failing, makes no fork but does change the exit code
  held for \<^verbatim>\<open>status\<close>, from 0 to 1.
\<close>

theorem open_failure_changes_exitCode:
  "Open (Some ''missing'') O_RDONLY (- 1)
     \<in> set (snd (cmdExecute env_open_fails [Some ''cat'', Some ''<'', Some ''missing''] init_shell))
   \<and> fst (cmdExecute env_open_fails [Some ''cat'', Some ''<'', Some ''missing''] init_shell)
       = Returned (init_shell\<lparr>status := 1\<rparr>)
   \<and> status (init_shell\<lparr>status := 1\<rparr>) \<noteq> status init_shell"
  by (simp add: cat_missing_run) (simp add: init_shell_def)

text \<open>
  C1, amended: whenever an \<^verbatim>\<open>open\<close> made by \<^verbatim>\<open>cmdExecute\<close> (of the redirection
  target or of the null device) returns -1, the function returns to the prompt loop
  having made no fork, its last action is a message printed to the user, the exit code is
  set to \<open>EXIT_FAILURE\<close>, and the terminating signal and the job table are as before.
\<close>

theorem open_failure_aborts:
  assumes "cmdExecute e as s = (r, evs)" and "Open p f (- 1) \<in> set evs"
  shows "r = Returned (s\<lparr>status := EXIT_FAILURE\<rparr>) \<and> (\<forall>c. Fork c \<notin> set evs)
         \<and> (\<exists>m. last evs = Printf m)"
  using assms(1)
proof (cases rule: cmdExecute_elim)
  case abort
  from openFiles_events [OF abort(1)] have "\<forall>c. Fork c \<notin> set evs"
    by fastforce
  with abort openFiles_None_reports [OF abort(1)] show ?thesis
    by simp
next
  case (nofork ev0 files)
  from assms(2) nofork(4) have "Open p f (- 1) \<in> set ev0"
    by (auto split: if_splits)
  with openFiles_failed_open [OF nofork(1), of p f] show ?thesis
    by simp
next
  case (child ev0 files cevs)
  from child_events [OF child(3)] have "Open p f (- 1) \<notin> set cevs"
    by fastforce
  with assms(2) child(4) have "Open p f (- 1) \<in> set ev0"
    by auto
  with openFiles_failed_open [OF child(1), of p f] show ?thesis
    by simp
next
  case (parent ev0 files pevs)
  from parent_events [OF parent(3)] have "Open p f (- 1) \<notin> set pevs"
    by fastforce
  with assms(2) parent(4) have "Open p f (- 1) \<in> set ev0"
    by auto
  with openFiles_failed_open [OF parent(1), of p f] show ?thesis
    by simp
qed

theorem open_failure_aborts_witness:
  "Open (Some ''missing'') O_RDONLY (- 1)
     \<in> set (snd (cmdExecute env_open_fails [Some ''cat'', Some ''<'', Some ''missing''] init_shell))
   \<and> fst (cmdExecute env_open_fails [Some ''cat'', Some ''<'', Some ''missing''] init_shell)
       = Returned (init_shell\<lparr>status := EXIT_FAILURE\<rparr>)
   \<and> (\<forall>c. Fork c
          \<notin> set (snd (cmdExecute env_open_fails [Some ''cat'', Some ''<'', Some ''missing''] init_shell)))
   \<and> (\<exists>m. last (snd (cmdExecute env_open_fails [Some ''cat'', Some ''<'', Some ''missing''] init_shell))
          = Printf m)"
proof -
  have h: "Open (Some ''missing'') O_RDONLY (- 1)
     \<in> set [Open (Some ''missing'') O_RDONLY (- 1),
             Printf (''File Error: cannot open missing for input'' @ nl)]"
    by simp
  from open_failure_aborts [OF cat_missing_run h] show ?thesis
    by (simp add: cat_missing_run)
qed

section \<open>Facts about the reap sweep\<close>

lemma reapSlot_length: "length (bgOpen (fst (reapSlot e i s))) = length (bgOpen s)"
  by (simp add: reapSlot_def Let_def split: prod.splits)

lemma reapSlot_termination: "termination (fst (reapSlot e i s)) = termination s"
  by (simp add: reapSlot_def Let_def split: prod.splits)

lemma reapSlot_status:
  "status (fst (reapSlot e i s)) =
     (if bgOpen s ! i \<noteq> 0 \<and> fst (waitpid_nohang e i) = - 1 then EXIT_FAILURE else status s)"
  by (simp add: reapSlot_def Let_def IS_PROCESS_FINISHED_def split: prod.splits)

lemma reapSlot_nth_other: "j \<noteq> i \<Longrightarrow> bgOpen (fst (reapSlot e i s)) ! j = bgOpen s ! j"
  by (simp add: reapSlot_def Let_def split: prod.splits)

lemma reapSlot_nth_same:
  "i < length (bgOpen s) \<Longrightarrow>
   bgOpen (fst (reapSlot e i s)) ! i =
     (if bgOpen s ! i \<noteq> 0 \<and> 0 < fst (waitpid_nohang e i) then 0 else bgOpen s ! i)"
  by (auto simp: reapSlot_def Let_def IS_PROCESS_FINISHED_def split: prod.splits)

lemma reapSlot_snd_cong:
  "bgOpen s1 ! j = bgOpen s ! j \<Longrightarrow> snd (reapSlot e j s1) = snd (reapSlot e j s)"
  by (simp add: reapSlot_def Let_def split: prod.splits)

lemma reap_unfold:
  assumes "i < length (bgOpen s)" and "bgOpen s ! i \<noteq> - 1"
  shows "reap e i s = (fst (reap e (Suc i) (fst (reapSlot e i s))),
                       snd (reapSlot e i s) @ snd (reap e (Suc i) (fst (reapSlot e i s))))"
  using assms by (subst reap.simps) (simp add: split_beta)

lemma reap_stop:
  assumes "k < length (bgOpen s)" and "bgOpen s ! k = - 1"
  shows "reap e k s = (Returned s, [])"
  using assms by (subst reap.simps) simp

lemma reap_exact:
  assumes "i \<le> k" and "k < length (bgOpen s)" and "bgOpen s ! k = - 1"
    and "\<forall>j. i \<le> j \<and> j < k \<longrightarrow> bgOpen s ! j \<noteq> - 1"
  shows "reap e i s = (Returned (the_Returned (fst (reap e i s))),
                       concat (map (\<lambda>j. snd (reapSlot e j s)) [i..<k]))
     \<and> length (bgOpen (the_Returned (fst (reap e i s)))) = length (bgOpen s)
     \<and> (\<forall>j<length (bgOpen s). bgOpen (the_Returned (fst (reap e i s))) ! j =
          (if i \<le> j \<and> j < k then bgOpen (fst (reapSlot e j s)) ! j else bgOpen s ! j))
     \<and> termination (the_Returned (fst (reap e i s))) = termination s
     \<and> status (the_Returned (fst (reap e i s))) =
         (if \<exists>j. i \<le> j \<and> j < k \<and> bgOpen s ! j \<noteq> 0 \<and> fst (waitpid_nohang e j) = - 1
          then EXIT_FAILURE else status s)"
  using assms
proof (induction "k - i" arbitrary: i s)
  case 0
  then have "i = k" by simp
  with "0.prems" have "reap e i s = (Returned s, [])"
    by (simp add: reap_stop)
  with \<open>i = k\<close> show ?case
    by auto
next
  case (Suc n)
  then have ik: "i < k" by simp
  define s1 where "s1 = fst (reapSlot e i s)"
  define s' where "s' = the_Returned (fst (reap e (Suc i) s1))"
  have len1: "length (bgOpen s1) = length (bgOpen s)"
    by (simp add: s1_def reapSlot_length)
  have other: "bgOpen s1 ! j = bgOpen s ! j" if "j \<noteq> i" for j
    using that by (simp add: s1_def reapSlot_nth_other)
  have n: "n = k - Suc i" using Suc.hyps(2) by simp
  have p1: "Suc i \<le> k" using ik by simp
  have p2: "k < length (bgOpen s1)" using Suc.prems(2) len1 by simp
  have p3: "bgOpen s1 ! k = - 1" using other [of k] ik Suc.prems(3) by simp
  have p4: "\<forall>j. Suc i \<le> j \<and> j < k \<longrightarrow> bgOpen s1 ! j \<noteq> - 1"
    using other Suc.prems(4) by simp
  note IH = Suc.hyps(1) [OF n p1 p2 p3 p4, folded s'_def]
  have r: "reap e (Suc i) s1 = (Returned s', concat (map (\<lambda>j. snd (reapSlot e j s1)) [Suc i..<k]))"
    using IH by (rule conjunct1)
  have l: "length (bgOpen s') = length (bgOpen s1)"
    using IH by (elim conjE)
  have t: "\<forall>j<length (bgOpen s1). bgOpen s' ! j =
          (if Suc i \<le> j \<and> j < k then bgOpen (fst (reapSlot e j s1)) ! j else bgOpen s1 ! j)"
    using IH by (elim conjE)
  have tm: "termination s' = termination s1"
    using IH by (elim conjE)
  have st: "status s' = (if \<exists>j. Suc i \<le> j \<and> j < k \<and> bgOpen s1 ! j \<noteq> 0 \<and> fst (waitpid_nohang e j) = - 1
                    then EXIT_FAILURE else status s1)"
    using IH by (elim conjE)
  have ev: "concat (map (\<lambda>j. snd (reapSlot e j s1)) [Suc i..<k])
            = concat (map (\<lambda>j. snd (reapSlot e j s)) [Suc i..<k])"
  proof -
    have "snd (reapSlot e j s1) = snd (reapSlot e j s)" if "j \<in> set [Suc i..<k]" for j
    proof (rule reapSlot_snd_cong)
      from that have "j \<noteq> i" by simp
      then show "bgOpen s1 ! j = bgOpen s ! j" by (rule other)
    qed
    then have "map (\<lambda>j. snd (reapSlot e j s1)) [Suc i..<k] = map (\<lambda>j. snd (reapSlot e j s)) [Suc i..<k]"
      by (intro map_cong refl)
    then show ?thesis by (rule arg_cong)
  qed
  have i1: "i < length (bgOpen s)" and i2: "bgOpen s ! i \<noteq> - 1"
    using ik Suc.prems(2) Suc.prems(4) by simp_all
  have upt: "[i..<k] = i # [Suc i..<k]"
    using ik by (rule upt_conv_Cons)
  have c1: "reap e i s = (Returned s', concat (map (\<lambda>j. snd (reapSlot e j s)) [i..<k]))"
    unfolding reap_unfold [OF i1 i2] upt
    using r ev by (simp add: s1_def)
  then have s'_eq: "the_Returned (fst (reap e i s)) = s'"
    by simp
  have c2: "length (bgOpen s') = length (bgOpen s)"
    using l len1 by simp
  have c3: "\<forall>j<length (bgOpen s). bgOpen s' ! j =
          (if i \<le> j \<and> j < k then bgOpen (fst (reapSlot e j s)) ! j else bgOpen s ! j)"
  proof (intro allI impI)
    fix j assume j: "j < length (bgOpen s)"
    with t len1 have tj: "bgOpen s' ! j =
          (if Suc i \<le> j \<and> j < k then bgOpen (fst (reapSlot e j s1)) ! j else bgOpen s1 ! j)"
      by simp
    show "bgOpen s' ! j =
          (if i \<le> j \<and> j < k then bgOpen (fst (reapSlot e j s)) ! j else bgOpen s ! j)"
    proof (cases "j = i")
      case True
      with tj ik show ?thesis by (simp add: s1_def)
    next
      case False
      have "bgOpen (fst (reapSlot e j s1)) ! j = bgOpen (fst (reapSlot e j s)) ! j"
        using j len1 other [OF False] by (simp add: reapSlot_nth_same)
      moreover have "Suc i \<le> j \<longleftrightarrow> i \<le> j"
        using False by auto
      ultimately show ?thesis
        using tj other [OF False] by simp
    qed
  qed
  have c4: "termination s' = termination s"
    using tm by (simp add: s1_def reapSlot_termination)
  have ex: "(\<exists>j. i \<le> j \<and> j < k \<and> bgOpen s ! j \<noteq> 0 \<and> fst (waitpid_nohang e j) = - 1)
        \<longleftrightarrow> (bgOpen s ! i \<noteq> 0 \<and> fst (waitpid_nohang e i) = - 1)
            \<or> (\<exists>j. Suc i \<le> j \<and> j < k \<and> bgOpen s1 ! j \<noteq> 0 \<and> fst (waitpid_nohang e j) = - 1)"
    (is "?L \<longleftrightarrow> ?A \<or> ?R")
  proof
    assume ?L
    then obtain j where j: "i \<le> j" "j < k" "bgOpen s ! j \<noteq> 0" "fst (waitpid_nohang e j) = - 1"
      by blast
    show "?A \<or> ?R"
    proof (cases "j = i")
      case True
      with j show ?thesis by simp
    next
      case False
      with j other [OF False] have "Suc i \<le> j \<and> j < k \<and> bgOpen s1 ! j \<noteq> 0 \<and> fst (waitpid_nohang e j) = - 1"
        by simp
      then show ?thesis by (intro disjI2 exI)
    qed
  next
    assume "?A \<or> ?R"
    then show ?L
    proof
      assume ?A
      with ik have "i \<le> i \<and> i < k \<and> bgOpen s ! i \<noteq> 0 \<and> fst (waitpid_nohang e i) = - 1"
        by simp
      then show ?L by (rule exI)
    next
      assume ?R
      then obtain j where j: "Suc i \<le> j" "j < k" "bgOpen s1 ! j \<noteq> 0" "fst (waitpid_nohang e j) = - 1"
        by blast
      then have "j \<noteq> i" by simp
      from j other [OF this] have "i \<le> j \<and> j < k \<and> bgOpen s ! j \<noteq> 0 \<and> fst (waitpid_nohang e j) = - 1"
        by simp
      then show ?L by (rule exI)
    qed
  qed
  have st1: "status s1 = (if bgOpen s ! i \<noteq> 0 \<and> fst (waitpid_nohang e i) = - 1
                          then EXIT_FAILURE else status s)"
    by (simp add: s1_def reapSlot_status)
  have c5: "status s' = (if \<exists>j. i \<le> j \<and> j < k \<and> bgOpen s ! j \<noteq> 0 \<and> fst (waitpid_nohang e j) = - 1
                    then EXIT_FAILURE else status s)"
    unfolding ex st st1 by auto
  show ?case
    unfolding s'_eq using c1 c2 c3 c4 c5 by (intro conjI)
qed


lemma reap_OutOfBounds:
  assumes "\<forall>j. i \<le> j \<and> j < length (bgOpen s) \<longrightarrow> bgOpen s ! j \<noteq> - 1"
  shows "fst (reap e i s) = OutOfBounds"
  using assms
proof (induction "length (bgOpen s) - i" arbitrary: i s)
  case 0
  then show ?case by (subst reap.simps) simp
next
  case (Suc n)
  then have i1: "i < length (bgOpen s)" and i2: "bgOpen s ! i \<noteq> - 1"
    by simp_all
  define s1 where "s1 = fst (reapSlot e i s)"
  have len1: "length (bgOpen s1) = length (bgOpen s)"
    by (simp add: s1_def reapSlot_length)
  have "n = length (bgOpen s1) - Suc i"
    using Suc.hyps(2) len1 by simp
  moreover have "\<forall>j. Suc i \<le> j \<and> j < length (bgOpen s1) \<longrightarrow> bgOpen s1 ! j \<noteq> - 1"
    using Suc.prems len1 by (simp add: s1_def reapSlot_nth_other)
  ultimately have "fst (reap e (Suc i) s1) = OutOfBounds"
    by (rule Suc.hyps(1))
  then show ?case
    by (simp add: reap_unfold [OF i1 i2] s1_def)
qed

lemma reap_first_Unused:
  assumes "reap e i s = (Returned s', evs)"
  obtains k where "i \<le> k" and "k < length (bgOpen s)" and "bgOpen s ! k = - 1"
    and "\<forall>j. i \<le> j \<and> j < k \<longrightarrow> bgOpen s ! j \<noteq> - 1"
proof -
  have ex: "\<exists>j. i \<le> j \<and> j < length (bgOpen s) \<and> bgOpen s ! j = - 1"
  proof (rule ccontr)
    assume "\<not> ?thesis"
    then have "fst (reap e i s) = OutOfBounds"
      by (intro reap_OutOfBounds) blast
    with assms show False by simp
  qed
  define k where "k = (LEAST j. i \<le> j \<and> j < length (bgOpen s) \<and> bgOpen s ! j = - 1)"
  have k: "i \<le> k \<and> k < length (bgOpen s) \<and> bgOpen s ! k = - 1"
    unfolding k_def using ex by (rule LeastI_ex)
  have "bgOpen s ! j \<noteq> - 1" if "i \<le> j \<and> j < k" for j
  proof
    assume "bgOpen s ! j = - 1"
    with that k have "i \<le> j \<and> j < length (bgOpen s) \<and> bgOpen s ! j = - 1"
      by simp
    then have "k \<le> j"
      unfolding k_def by (rule Least_le)
    with that show False by simp
  qed
  with k that show thesis
    by blast
qed

lemma reap_sweep:
  assumes "reap e i s = (Returned s', evs)"
  obtains k where "i \<le> k" and "k < length (bgOpen s)" and "bgOpen s ! k = - 1"
    and "\<forall>j. i \<le> j \<and> j < k \<longrightarrow> bgOpen s ! j \<noteq> - 1"
    and "evs = concat (map (\<lambda>j. snd (reapSlot e j s)) [i..<k])"
    and "length (bgOpen s') = length (bgOpen s)"
    and "\<forall>j<length (bgOpen s). bgOpen s' ! j =
          (if i \<le> j \<and> j < k then bgOpen (fst (reapSlot e j s)) ! j else bgOpen s ! j)"
    and "termination s' = termination s"
    and "status s' = (if \<exists>j. i \<le> j \<and> j < k \<and> bgOpen s ! j \<noteq> 0 \<and> fst (waitpid_nohang e j) = - 1
                      then EXIT_FAILURE else status s)"
proof -
  from assms obtain k where k: "i \<le> k" "k < length (bgOpen s)" "bgOpen s ! k = - 1"
    "\<forall>j. i \<le> j \<and> j < k \<longrightarrow> bgOpen s ! j \<noteq> - 1"
    by (rule reap_first_Unused)
  have s': "the_Returned (fst (reap e i s)) = s'"
    using assms by simp
  note ex = reap_exact [OF k, of e, unfolded assms fst_conv the_Returned.simps]
  have "evs = concat (map (\<lambda>j. snd (reapSlot e j s)) [i..<k])"
    using ex by simp
  moreover have "length (bgOpen s') = length (bgOpen s)"
    using ex by (elim conjE)
  moreover have "\<forall>j<length (bgOpen s). bgOpen s' ! j =
          (if i \<le> j \<and> j < k then bgOpen (fst (reapSlot e j s)) ! j else bgOpen s ! j)"
    using ex by (elim conjE)
  moreover have "termination s' = termination s"
    using ex by (elim conjE)
  moreover have "status s' = (if \<exists>j. i \<le> j \<and> j < k \<and> bgOpen s ! j \<noteq> 0 \<and> fst (waitpid_nohang e j) = - 1
                      then EXIT_FAILURE else status s)"
    using ex by (elim conjE)
  ultimately show thesis
    using k that by blast
qed

lemma reapSlot_Waitpid:
  "bgOpen s ! j \<noteq> IS_PROCESS_FINISHED \<Longrightarrow>
   Waitpid (bgOpen s ! j) WNOHANG (fst (waitpid_nohang e j)) \<in> set (snd (reapSlot e j s))"
  by (simp add: reapSlot_def Let_def split: prod.splits)


lemma reapSlot_perror:
  "bgOpen s ! j \<noteq> IS_PROCESS_FINISHED \<Longrightarrow> fst (waitpid_nohang e j) = - 1 \<Longrightarrow>
   Perror (''wait failed'' @ nl) \<in> set (snd (reapSlot e j s))"
  by (auto simp: reapSlot_def Let_def split: prod.splits)


lemma in_sweep_events:
  "j < k \<Longrightarrow> ev \<in> set (snd (reapSlot e j s)) \<Longrightarrow>
   ev \<in> set (concat (map (\<lambda>j. snd (reapSlot e j s)) [0..<k]))"
  by auto



lemma sweep_fails_run:
  "reap env_sweep_fails 0 sweep_shell =
     (Returned (sweep_shell\<lparr>status := 1\<rparr>),
      [Waitpid 11 WNOHANG 0, Waitpid 12 WNOHANG 0,
       Waitpid 13 WNOHANG (- 1), Perror (''wait failed'' @ nl)])"
  by (simp add: reap.simps reapSlot_def Let_def sweep_shell_def env_sweep_fails_def env0_def
      nth_append IS_PROCESS_FINISHED_def EXIT_FAILURE_def)

section \<open>The reap sweep: scan order, completions and failures\<close>






text \<open>
  C10: if the sweep reaches a Running slot whose non-blocking check returns -1, it reports
  the failure with \<^verbatim>\<open>perror\<close>, the exit code is \<open>EXIT_FAILURE\<close> after the sweep, the
  terminating signal is as before, and the slot still holds the pid.
\<close>

theorem reap_wait_failure_sets_exitCode:
  assumes "reap e 0 s = (Returned s', evs)" and "\<forall>j\<le>i. bgOpen s ! j \<noteq> - 1"
    and "bgOpen s ! i \<noteq> IS_PROCESS_FINISHED" and "fst (waitpid_nohang e i) = - 1"
  shows "Waitpid (bgOpen s ! i) WNOHANG (- 1) \<in> set evs
     \<and> Perror (''wait failed'' @ nl) \<in> set evs
     \<and> status s' = EXIT_FAILURE \<and> termination s' = termination s
     \<and> bgOpen s' ! i = bgOpen s ! i"
proof -
  from assms(1) obtain k where k: "k < length (bgOpen s)" "bgOpen s ! k = - 1"
    and evs: "evs = concat (map (\<lambda>j. snd (reapSlot e j s)) [0..<k])"
    and tab: "\<forall>j<length (bgOpen s). bgOpen s' ! j =
          (if 0 \<le> j \<and> j < k then bgOpen (fst (reapSlot e j s)) ! j else bgOpen s ! j)"
    and tm: "termination s' = termination s"
    and st: "status s' = (if \<exists>j. 0 \<le> j \<and> j < k \<and> bgOpen s ! j \<noteq> 0 \<and> fst (waitpid_nohang e j) = - 1
                      then EXIT_FAILURE else status s)"
    by (rule reap_sweep)
  have ik: "i < k"
  proof (rule ccontr)
    assume "\<not> i < k"
    then have "k \<le> i" by simp
    with assms(2) k(2) show False by blast
  qed
  have "Waitpid (bgOpen s ! i) WNOHANG (- 1) \<in> set evs"
    unfolding evs using ik reapSlot_Waitpid [OF assms(3), of e] assms(4)
    by (intro in_sweep_events) simp_all
  moreover have "Perror (''wait failed'' @ nl) \<in> set evs"
    unfolding evs using ik reapSlot_perror [OF assms(3,4)] by (rule in_sweep_events)
  moreover have "\<exists>j. 0 \<le> j \<and> j < k \<and> bgOpen s ! j \<noteq> 0 \<and> fst (waitpid_nohang e j) = - 1"
    using ik assms(3,4) by (auto simp: IS_PROCESS_FINISHED_def)
  with st have "status s' = EXIT_FAILURE"
    by simp
  moreover have "bgOpen s' ! i = bgOpen s ! i"
    using tab ik k(1) assms(4) by (simp add: reapSlot_nth_same)
  ultimately show ?thesis
    using tm by simp
qed

text \<open>
  C10 at work: the check of job 13 fails; the exit code goes from 7 to 1, and \<^verbatim>\<open>status\<close>
  then prints it.
\<close>

theorem reap_wait_failure_sets_exitCode_witness:
  "reap env_sweep_fails 0 sweep_shell =
     (Returned (sweep_shell\<lparr>status := 1\<rparr>),
      [Waitpid 11 WNOHANG 0, Waitpid 12 WNOHANG 0,
       Waitpid 13 WNOHANG (- 1), Perror (''wait failed'' @ nl)])
   \<and> bgOpen sweep_shell ! 3 \<noteq> IS_PROCESS_FINISHED
   \<and> fst (waitpid_nohang env_sweep_fails 3) = - 1
   \<and> status sweep_shell = 7
   \<and> status (sweep_shell\<lparr>status := 1\<rparr>) = EXIT_FAILURE
   \<and> termination (sweep_shell\<lparr>status := 1\<rparr>) = termination sweep_shell
   \<and> bgOpen (sweep_shell\<lparr>status := 1\<rparr>) ! 3 = bgOpen sweep_shell ! 3
   \<and> cmdStatus (status (sweep_shell\<lparr>status := 1\<rparr>)) (termination (sweep_shell\<lparr>status := 1\<rparr>))
       = [Printf (''exit value 1'' @ nl)]"
proof -
  have h2: "\<forall>j\<le>3. bgOpen sweep_shell ! j \<noteq> - 1"
    by (simp add: sweep_shell_def nth_append le_Suc_eq numeral_nat)
  have h3: "bgOpen sweep_shell ! 3 \<noteq> IS_PROCESS_FINISHED"
    by (simp add: sweep_shell_def IS_PROCESS_FINISHED_def)
  have h4: "fst (waitpid_nohang env_sweep_fails 3) = - 1"
    by (simp add: env_sweep_fails_def env0_def)
  have c: "cmdStatus 1 0 = [Printf (''exit value 1'' @ nl)]"
    by (simp add: cmdStatus_def show_int_def show_nat.simps digit_char_def)
  have s7: "status sweep_shell = 7" "termination sweep_shell = 0"
    by (simp_all add: sweep_shell_def)
  from reap_wait_failure_sets_exitCode [OF sweep_fails_run h2 h3 h4] h3 h4 c s7 show ?thesis
    by (simp add: sweep_fails_run)
qed

section \<open>Facts about recording a job and about the shared wait-result code\<close>

lemma recordJob_first:
  assumes "i \<le> k" and "k < MAX_PROCESSES" and "bg ! k < 1"
    and "\<forall>j. i \<le> j \<and> j < k \<longrightarrow> \<not> bg ! j < 1"
  shows "recordJob cpid bg i = Some (bg[k := cpid])"
  using assms
proof (induction "k - i" arbitrary: i)
  case 0
  then have "i = k" by simp
  with "0.prems" show ?case
    by (subst recordJob.simps) simp
next
  case (Suc n)
  then have "i < k" by simp
  with Suc.prems have "i < MAX_PROCESSES" and "\<not> bg ! i < 1"
    by simp_all
  then have "recordJob cpid bg i = recordJob cpid bg (Suc i)"
    by (subst recordJob.simps) simp
  moreover have "recordJob cpid bg (Suc i) = Some (bg[k := cpid])"
    using Suc.hyps(2) Suc.prems \<open>i < k\<close> by (intro Suc.hyps(1)) simp_all
  ultimately show ?case by simp
qed

lemma recordJob_full:
  assumes "\<forall>j. i \<le> j \<and> j < MAX_PROCESSES \<longrightarrow> \<not> bg ! j < 1"
  shows "recordJob cpid bg i = None"
  using assms
proof (induction "MAX_PROCESSES - i" arbitrary: i)
  case 0
  then show ?case by (subst recordJob.simps) simp
next
  case (Suc n)
  then have "i < MAX_PROCESSES" and "\<not> bg ! i < 1"
    by simp_all
  then have "recordJob cpid bg i = recordJob cpid bg (Suc i)"
    by (subst recordJob.simps) simp
  moreover have "recordJob cpid bg (Suc i) = None"
    using Suc.hyps(2) Suc.prems by (intro Suc.hyps(1)) simp_all
  ultimately show ?case by simp
qed

lemma recordJob_Some:
  assumes "recordJob cpid bg i = Some bg'"
  obtains k where "i \<le> k" and "k < MAX_PROCESSES" and "bg ! k < 1" and "bg' = bg[k := cpid]"
proof -
  have ex: "\<exists>j. i \<le> j \<and> j < MAX_PROCESSES \<and> bg ! j < 1"
  proof (rule ccontr)
    assume "\<not> ?thesis"
    then have "recordJob cpid bg i = None"
      by (intro recordJob_full) blast
    with assms show False by simp
  qed
  define k where "k = (LEAST j. i \<le> j \<and> j < MAX_PROCESSES \<and> bg ! j < 1)"
  have k: "i \<le> k \<and> k < MAX_PROCESSES \<and> bg ! k < 1"
    unfolding k_def using ex by (rule LeastI_ex)
  have "\<not> bg ! j < 1" if "i \<le> j \<and> j < k" for j
  proof
    assume "bg ! j < 1"
    with that k have "i \<le> j \<and> j < MAX_PROCESSES \<and> bg ! j < 1"
      by simp
    then have "k \<le> j"
      unfolding k_def by (rule Least_le)
    with that show False by simp
  qed
  then have "recordJob cpid bg i = Some (bg[k := cpid])"
    using k by (intro recordJob_first) simp_all
  with assms have "bg' = bg[k := cpid]"
    by simp
  with k that show thesis
    by blast
qed

lemma waitResult_bgOpen: "bgOpen (fst (waitResult wpid ws s)) = bgOpen s"
  by (simp add: waitResult_def Let_def split: prod.splits)

lemma waitResult_termination_nonneg:
  "0 \<le> termination s \<Longrightarrow> 0 \<le> termination (fst (waitResult wpid ws s))"
  using WTERMSIG_range [of ws]
  by (simp add: waitResult_def Let_def split: prod.splits)

lemma waitResult_exited:
  assumes "WIFEXITED ws"
  shows "waitResult wpid ws s =
     (s\<lparr>status := WEXITSTATUS ws, termination := 0\<rparr>,
      if wpid = - 1 then [Perror ''wait failed''] else [])"
  using assms WIFEXITED_not_WIFSIGNALED [OF assms]
  by (simp add: waitResult_def Let_def)

lemma waitResult_signaled:
  assumes "WIFSIGNALED ws"
  shows "waitResult wpid ws s =
     ((if wpid = - 1 then s\<lparr>status := EXIT_FAILURE\<rparr> else s)\<lparr>termination := WTERMSIG ws\<rparr>,
      (if wpid = - 1 then [Perror ''wait failed''] else [])
      @ [Printf (''terminated by signal '' @ show_int (WTERMSIG ws) @ nl)])"
  using assms WIFEXITED_not_WIFSIGNALED [of ws]
  by (auto simp: waitResult_def Let_def)

section \<open>What every reachable state satisfies\<close>

lemma shell_ok_init: "shell_ok init_shell"
  by (simp add: shell_ok_def init_shell_def list_all_length)

lemma shell_ok_status: "shell_ok s \<Longrightarrow> shell_ok (s\<lparr>status := v\<rparr>)"
  by (simp add: shell_ok_def)

lemma shell_ok_waitResult: "shell_ok s \<Longrightarrow> shell_ok (fst (waitResult wpid ws s))"
  using waitResult_termination_nonneg [of s wpid ws]
  by (simp add: shell_ok_def waitResult_bgOpen)

lemma shell_ok_record:
  assumes "shell_ok s" and "0 < cpid"
  shows "shell_ok (s\<lparr>bgOpen := (bgOpen s)[k := cpid]\<rparr>)"
proof -
  have "set ((bgOpen s)[k := cpid]) \<subseteq> insert cpid (set (bgOpen s))"
    by (rule set_update_subset_insert)
  with assms show ?thesis
    by (auto simp: shell_ok_def list_all_iff)
qed

lemma shell_ok_parent:
  assumes "shell_ok s" and "0 < cpid" and "parent e bg cpid s = (Returned s', pevs)"
  shows "shell_ok s'"
proof (cases bg)
  case True
  show ?thesis
  proof (cases "recordJob cpid (bgOpen s) 0")
    case None
    with True assms(3) have "s' = fst (waitResult (uninit_wpid e) (uninit_waitStatus e) s)"
      by (auto simp: parent_def split_beta)
    with assms(1) show ?thesis
      by (simp add: shell_ok_waitResult)
  next
    case (Some bg')
    then obtain k where "bg' = (bgOpen s)[k := cpid]"
      by (rule recordJob_Some)
    with Some True assms(3) have "s' = s\<lparr>bgOpen := (bgOpen s)[k := cpid]\<rparr>"
      by (auto simp: parent_def)
    with assms(1,2) show ?thesis
      by (simp add: shell_ok_record)
  qed
next
  case False
  with assms(3) have "s' = fst (waitResult (fst (waitpid_block e)) (snd (waitpid_block e)) s)"
    by (auto simp: parent_def split_beta)
  with assms(1) show ?thesis
    by (simp add: shell_ok_waitResult)
qed

lemma shell_ok_cmdExecute:
  assumes "shell_ok s" and "cmdExecute e as s = (Returned s', evs)"
  shows "shell_ok s'"
  using assms(2)
proof (cases rule: cmdExecute_elim)
  case abort
  with assms(1) show ?thesis by (simp add: shell_ok_status)
next
  case (nofork ev0 files)
  with assms(1) show ?thesis by simp
next
  case (child ev0 files cevs)
  with child_never_returns [OF child(3)] show ?thesis by simp
next
  case (parent ev0 files pevs)
  from assms(1) parent(2) parent(3) show ?thesis by (rule shell_ok_parent)
qed

lemma processArgs_elim:
  assumes "processArgs e as s = (r, evs)"
  obtains
    (blank) "argAt as 0 = None" and "r = Returned s" and "evs = []"
  | (comment) a0 where "argAt as 0 = Some (CHR ''#'' # a0)" and "r = Returned s" and "evs = []"
  | (cd) "argAt as 0 = Some ''cd''" and "r = Returned (fst (cmdChangeDir e as s))"
      and "evs = snd (cmdChangeDir e as s)"
  | (status) "argAt as 0 = Some ''status''" and "r = Returned s"
      and "evs = cmdStatus (status s) (termination s)"
  | (exit) "argAt as 0 = Some ''exit''" and "cmdExit e s = (r, evs)"
  | (execute) "cmdExecute e as s = (r, evs)"
proof (cases "argAt as 0")
  case None
  with assms blank show thesis
    by (simp add: processArgs_def)
next
  case (Some a0)
  show thesis
  proof (cases "case a0 of [] \<Rightarrow> False | c # _ \<Rightarrow> c = CHR ''#''")
    case True
    then obtain a1 where "a0 = CHR ''#'' # a1"
      by (cases a0) simp_all
    with Some assms comment [of a1] show thesis
      by (simp add: processArgs_def)
  next
    case nc: False
    show thesis
    proof (cases "a0 = ''cd''")
      case True
      with Some nc assms cd show thesis
        by (simp add: processArgs_def split_beta)
    next
      case ncd: False
      show thesis
      proof (cases "a0 = ''status''")
        case True
        with Some nc assms status show thesis
          by (simp add: processArgs_def)
      next
        case nst: False
        show thesis
        proof (cases "a0 = ''exit''")
          case True
          with Some nc assms exit show thesis
            by (simp add: processArgs_def)
        next
          case False
          with Some nc ncd nst assms execute show thesis
            by (simp add: processArgs_def)
        qed
      qed
    qed
  qed
qed

lemma shell_ok_processArgs:
  assumes "shell_ok s" and "processArgs e as s = (Returned s', evs)"
  shows "shell_ok s'"
  using assms(2)
proof (cases rule: processArgs_elim)
  case blank
  with assms(1) show ?thesis by simp
next
  case (comment a0)
  with assms(1) show ?thesis by simp
next
  case cd
  then have "s' = fst (cmdChangeDir e as s)" by simp
  with assms(1) show ?thesis
    by (simp add: cmdChangeDir_def Let_def shell_ok_status)
next
  case status
  with assms(1) show ?thesis by simp
next
  case exit
  then show ?thesis
    by (simp add: cmdExit_def split_beta split: if_splits)
next
  case execute
  with assms(1) show ?thesis by (rule shell_ok_cmdExecute)
qed

lemma shell_ok_reap:
  assumes "shell_ok s" and "reap e 0 s = (Returned s', evs)"
  shows "shell_ok s'"
proof -
  from assms(2) obtain k where k: "k < length (bgOpen s)"
    and len: "length (bgOpen s') = length (bgOpen s)"
    and tab: "\<forall>j<length (bgOpen s). bgOpen s' ! j =
          (if 0 \<le> j \<and> j < k then bgOpen (fst (reapSlot e j s)) ! j else bgOpen s ! j)"
    and tm: "termination s' = termination s"
    by (rule reap_sweep)
  have "- 1 \<le> bgOpen s' ! j" if "j < length (bgOpen s')" for j
  proof -
    from that len have j: "j < length (bgOpen s)" by simp
    with assms(1) have "- 1 \<le> bgOpen s ! j"
      by (simp add: shell_ok_def list_all_length)
    with tab j show ?thesis
      by (simp add: reapSlot_nth_same)
  qed
  with assms(1) len tm show ?thesis
    by (simp add: shell_ok_def list_all_length)
qed

lemma reachable_shell_ok: "reachable s \<Longrightarrow> shell_ok s"
proof (induction rule: reachable.induct)
  case start
  show ?case by (rule shell_ok_init)
next
  case (sweep s e s' evs)
  from sweep(3) sweep(2) show ?case by (rule shell_ok_reap)
next
  case (command s e as s' evs)
  from command(3) command(2) show ?case by (rule shell_ok_processArgs)
qed

section \<open>Filling the job table\<close>

lemma filled_nth:
  "j < n \<Longrightarrow> bgOpen (filled n) ! j = 1000 + int j"
  "n < MAX_PROCESSES \<Longrightarrow> bgOpen (filled n) ! n = - 1"
  by (simp_all add: filled_def nth_append)

lemma filled_update:
  assumes "n < MAX_PROCESSES"
  shows "(filled n)\<lparr>bgOpen := (bgOpen (filled n))[n := 1000 + int n]\<rparr> = filled (Suc n)"
proof -
  from assms have "MAX_PROCESSES - n = Suc (MAX_PROCESSES - Suc n)"
    by simp
  then have "replicate (MAX_PROCESSES - n) (- 1 :: int) = - 1 # replicate (MAX_PROCESSES - Suc n) (- 1)"
    by simp
  then show ?thesis
    by (simp add: filled_def list_update_append)
qed

lemma filled_launch:
  assumes "n < MAX_PROCESSES"
  shows "processArgs (env0\<lparr>fork_ret := 1000 + int n\<rparr>) [Some ''sleep'', Some ''5'', Some ''&'']
           (filled n)
         = (Returned (filled (Suc n)),
            [Open (Some ''/dev/null'') O_RDONLY 3, Open (Some ''/dev/null'') O_WRONLY 3,
             Fcntl 3, Fcntl 3, Fork (1000 + int n),
             Printf (''background pid is '' @ show_int (1000 + int n) @ nl)])"
proof -
  have of: "openFiles (env0\<lparr>fork_ret := 1000 + int n\<rparr>) True False False
              [Some ''sleep'', Some ''5'', None]
        = ([Open (Some ''/dev/null'') O_RDONLY 3, Open (Some ''/dev/null'') O_WRONLY 3,
            Fcntl 3, Fcntl 3], Some (3, 3))"
    by (simp add: openFiles_defs env0_def)
  have "recordJob (1000 + int n) (bgOpen (filled n)) 0
        = Some ((bgOpen (filled n))[n := 1000 + int n])"
    using assms by (intro recordJob_first) (simp_all add: filled_nth)
  then have "parent (env0\<lparr>fork_ret := 1000 + int n\<rparr>) True (1000 + int n) (filled n)
        = (Returned (filled (Suc n)),
           [Printf (''background pid is '' @ show_int (1000 + int n) @ nl)])"
    by (simp add: parent_def filled_update [OF assms])
  with of have "cmdExecute (env0\<lparr>fork_ret := 1000 + int n\<rparr>) [Some ''sleep'', Some ''5'', Some ''&'']
           (filled n)
         = (Returned (filled (Suc n)),
            [Open (Some ''/dev/null'') O_RDONLY 3, Open (Some ''/dev/null'') O_WRONLY 3,
             Fcntl 3, Fcntl 3, Fork (1000 + int n),
             Printf (''background pid is '' @ show_int (1000 + int n) @ nl)])"
    by (simp add: cmdExecute_def Let_def)
  then show ?thesis
    by (simp add: processArgs_def argAt_def)
qed

lemma filled_0: "init_shell\<lparr>status := 7, termination := 0\<rparr> = filled 0"
  by (simp add: init_shell_def filled_def)

lemma reachable_filled: "n \<le> MAX_PROCESSES \<Longrightarrow> reachable (filled n)"
proof (induction n)
  case 0
  have "processArgs env0 [Some ''ls''] init_shell
        = (Returned (filled 0), [Fork 4242, Waitpid 4242 WBLOCK 4242])"
    by (simp add: processArgs_def argAt_def filled_0 [symmetric])
       (simp add: cmdExecute_def openFiles_defs parent_def waitResult_def env0_def
          WIFEXITED_def WIFSIGNALED_def WTERMSIG_def WEXITSTATUS_def drop_bit_eq_div init_shell_def)
  with reachable.start show ?case
    by (rule reachable.command)
next
  case (Suc n)
  then have "n < MAX_PROCESSES" and "reachable (filled n)"
    by simp_all
  from this(2) filled_launch [OF this(1)] show ?case
    by (rule reachable.command)
qed

lemma reachable_full_shell: "reachable full_shell"
  unfolding full_shell_def by (rule reachable_filled) simp

lemma full_shell_no_free_slot: "recordJob cpid (bgOpen full_shell) 0 = None"
  by (rule recordJob_full) (simp add: full_shell_def filled_nth)

text \<open>
  With all slots taken there is no Unused slot to end the sweep: it runs through the
  whole table and reads the element behind it.
\<close>

lemma full_shell_sweep_leaves_table: "fst (reap e 0 full_shell) = OutOfBounds"
proof (rule reap_OutOfBounds)
  have "length (bgOpen full_shell) = MAX_PROCESSES"
    by (simp add: full_shell_def filled_def)
  then show "\<forall>j. 0 \<le> j \<and> j < length (bgOpen full_shell) \<longrightarrow> bgOpen full_shell ! j \<noteq> - 1"
    by (simp add: full_shell_def filled_nth)
qed

section \<open>Background launches\<close>

lemma cmdExecute_parent:
  assumes "cmdExecute e as s = (r, evs)" and "Fork c \<in> set evs" and "0 < c"
  obtains ev0 files pevs where
    "openFiles e (fst (isBackground as)) (isInputRedirected as) (isOutputRedirected as)
       (snd (isBackground as)) = (ev0, Some files)"
    and "c = fork_ret e" and "parent e (fst (isBackground as)) c s = (r, pevs)"
    and "evs = ev0 @ Fork c # pevs"
  using assms(1)
proof (cases rule: cmdExecute_elim)
  case abort
  from openFiles_events [OF abort(1) assms(2)] show ?thesis
    by simp
next
  case (nofork ev0 files)
  from openFiles_events [OF nofork(1), of "Fork c"] have "Fork c \<notin> set ev0"
    by auto
  with assms(2,3) nofork(2,4) show ?thesis
    by (auto split: if_splits)
next
  case (child ev0 files cevs)
  from openFiles_events [OF child(1), of "Fork c"] have "Fork c \<notin> set ev0"
    by auto
  moreover from child_events [OF child(3), of "Fork c"] have "Fork c \<notin> set cevs"
    by auto
  ultimately show ?thesis
    using assms(2,3) child(4) by auto
next
  case (parent ev0 files pevs)
  from openFiles_events [OF parent(1), of "Fork c"] have "Fork c \<notin> set ev0"
    by auto
  moreover from parent_events [OF parent(3), of "Fork c"] have "Fork c \<notin> set pevs"
    by auto
  ultimately have "c = fork_ret e"
    using assms(2) parent(4) by auto
  with parent that show ?thesis
    by simp
qed

text \<open>
  C3: in any state the shell can reach, a background command whose fork succeeded with
  child pid \<open>c\<close>, at a moment when the job table has an Empty or Unused slot, the first
  such slot (counting from 0) being \<open>k\<close>: \<^verbatim>\<open>cmdExecute\<close> returns with \<open>c\<close> stored in slot
  \<open>k\<close> and nothing else changed, it has printed the pid, and it has made no call to
  \<^verbatim>\<open>waitpid\<close> at all.
\<close>

theorem background_launch_records_job:
  assumes "reachable s" and "cmdExecute e as s = (r, evs)" and "fst (isBackground as)"
    and "Fork c \<in> set evs" and "0 < c"
    and "k < MAX_PROCESSES" and "bgOpen s ! k = 0 \<or> bgOpen s ! k = - 1"
    and "\<forall>j<k. bgOpen s ! j \<noteq> 0 \<and> bgOpen s ! j \<noteq> - 1"
  shows "r = Returned (s\<lparr>bgOpen := (bgOpen s)[k := c]\<rparr>)
     \<and> Printf (''background pid is '' @ show_int c @ nl) \<in> set evs
     \<and> (\<forall>p w x. Waitpid p w x \<notin> set evs)"
proof -
  from assms(2,4,5) obtain ev0 files pevs where
    "openFiles e (fst (isBackground as)) (isInputRedirected as) (isOutputRedirected as)
       (snd (isBackground as)) = (ev0, Some files)"
    and p: "parent e (fst (isBackground as)) c s = (r, pevs)"
    and evs: "evs = ev0 @ Fork c # pevs"
    by (rule cmdExecute_parent)
  note of = this(1)
  from assms(1) have ok: "shell_ok s"
    by (rule reachable_shell_ok)
  have full: "\<not> bgOpen s ! j < 1" if "j < k" for j
  proof -
    from that assms(6) ok have "- 1 \<le> bgOpen s ! j"
      by (simp add: shell_ok_def list_all_length)
    moreover from that assms(8) have "bgOpen s ! j \<noteq> 0 \<and> bgOpen s ! j \<noteq> - 1"
      by simp
    ultimately show ?thesis
      by arith
  qed
  have "recordJob c (bgOpen s) 0 = Some ((bgOpen s)[k := c])"
    using assms(6,7) full by (intro recordJob_first) auto
  with p assms(3) have r: "r = Returned (s\<lparr>bgOpen := (bgOpen s)[k := c]\<rparr>)"
    and pevs: "pevs = [Printf (''background pid is '' @ show_int c @ nl)]"
    by (simp_all add: parent_def)
  from openFiles_events [OF of] have "\<forall>p w x. Waitpid p w x \<notin> set ev0"
    by fastforce
  with r evs pevs show ?thesis
    by simp
qed

lemma launch_openFiles:
  "openFiles env0 True False False [Some ''sleep'', Some ''5'', None]
   = ([Open (Some ''/dev/null'') O_RDONLY 3, Open (Some ''/dev/null'') O_WRONLY 3,
       Fcntl 3, Fcntl 3], Some (3, 3))"
  by (simp add: openFiles_defs env0_def)

lemma launch_run:
  "cmdExecute env0 [Some ''sleep'', Some ''5'', Some ''&''] init_shell
   = (Returned (init_shell\<lparr>bgOpen := (bgOpen init_shell)[0 := 4242]\<rparr>),
      [Open (Some ''/dev/null'') O_RDONLY 3, Open (Some ''/dev/null'') O_WRONLY 3,
       Fcntl 3, Fcntl 3, Fork 4242, Printf (''background pid is 4242'' @ nl)])"
proof -
  have "recordJob 4242 (bgOpen init_shell) 0 = Some ((bgOpen init_shell)[0 := 4242])"
    by (subst recordJob.simps) (simp add: init_shell_def MAX_PROCESSES_def)
  moreover have "show_int 4242 = ''4242''"
    by (simp add: show_int_def show_nat.simps digit_char_def)
  moreover have "fork_ret env0 = 4242"
    by (simp add: env0_def)
  ultimately show ?thesis
    using launch_openFiles by (simp add: cmdExecute_def parent_def)
qed

lemma filled_3_sweep:
  "reap env_second_done 0 (filled 3)
   = (Returned tomb_shell,
      [Waitpid 1000 WNOHANG 0,
       Waitpid 1001 WNOHANG 1001, Printf ''background pid 1001 is done: '',
       Printf (''exit value 0'' @ nl),
       Waitpid 1002 WNOHANG 0])"
  by (simp add: reap.simps reapSlot_def Let_def filled_def tomb_shell_def env_second_done_def
      env0_def MAX_PROCESSES_def IS_PROCESS_FINISHED_def nth_append
      WIFEXITED_def WIFSIGNALED_def WTERMSIG_def WEXITSTATUS_def
      show_int_def show_nat.simps digit_char_def upt_rec)

lemma reachable_tomb_shell: "reachable tomb_shell"
proof -
  have "reachable (filled 3)"
    by (rule reachable_filled) (simp add: MAX_PROCESSES_def)
  then show ?thesis
    using filled_3_sweep by (rule reachable.sweep)
qed

lemma tomb_launch_run:
  "cmdExecute env0 [Some ''sleep'', Some ''5'', Some ''&''] tomb_shell
   = (Returned (tomb_shell\<lparr>bgOpen := (bgOpen tomb_shell)[1 := 4242]\<rparr>),
      [Open (Some ''/dev/null'') O_RDONLY 3, Open (Some ''/dev/null'') O_WRONLY 3,
       Fcntl 3, Fcntl 3, Fork 4242, Printf (''background pid is 4242'' @ nl)])"
proof -
  have "recordJob 4242 (bgOpen tomb_shell) 0 = Some ((bgOpen tomb_shell)[1 := 4242])"
    by (intro recordJob_first) (simp_all add: tomb_shell_def MAX_PROCESSES_def)
  moreover have "show_int 4242 = ''4242''"
    by (simp add: show_int_def show_nat.simps digit_char_def)
  moreover have "fork_ret env0 = 4242"
    by (simp add: env0_def)
  ultimately show ?thesis
    using launch_openFiles by (simp add: cmdExecute_def parent_def)
qed

text \<open>
  C3 at work: \<^verbatim>\<open>sleep 5 &\<close> typed into the fresh shell takes slot 0, which is Unused;
  typed after three launches of which the second has been reaped, it takes slot 1, which
  is Empty.
\<close>

theorem background_launch_records_job_witness:
  "reachable init_shell
   \<and> fst (isBackground [Some ''sleep'', Some ''5'', Some ''&''])
   \<and> Fork 4242 \<in> set (snd (cmdExecute env0 [Some ''sleep'', Some ''5'', Some ''&''] init_shell))
   \<and> 0 < MAX_PROCESSES \<and> bgOpen init_shell ! 0 = - 1
   \<and> fst (cmdExecute env0 [Some ''sleep'', Some ''5'', Some ''&''] init_shell)
       = Returned (init_shell\<lparr>bgOpen := (bgOpen init_shell)[0 := 4242]\<rparr>)
   \<and> Printf (''background pid is 4242'' @ nl)
       \<in> set (snd (cmdExecute env0 [Some ''sleep'', Some ''5'', Some ''&''] init_shell))
   \<and> (\<forall>p w x. Waitpid p w x
         \<notin> set (snd (cmdExecute env0 [Some ''sleep'', Some ''5'', Some ''&''] init_shell)))
   \<and> reachable tomb_shell
   \<and> bgOpen tomb_shell ! 0 = 1000 \<and> bgOpen tomb_shell ! 1 = 0
   \<and> fst (cmdExecute env0 [Some ''sleep'', Some ''5'', Some ''&''] tomb_shell)
       = Returned (tomb_shell\<lparr>bgOpen := (bgOpen tomb_shell)[1 := 4242]\<rparr>)"
proof -
  have bg: "fst (isBackground [Some ''sleep'', Some ''5'', Some ''&''])"
    by simp
  have f: "Fork 4242 \<in> set (snd (cmdExecute env0 [Some ''sleep'', Some ''5'', Some ''&''] init_shell))"
    by (simp add: launch_run)
  have k: "0 < MAX_PROCESSES" "bgOpen init_shell ! 0 = 0 \<or> bgOpen init_shell ! 0 = - 1"
    "\<forall>j<0. bgOpen init_shell ! j \<noteq> 0 \<and> bgOpen init_shell ! j \<noteq> - 1"
    by (simp_all add: MAX_PROCESSES_def init_shell_def)
  have u: "bgOpen init_shell ! 0 = - 1"
    by (simp add: init_shell_def MAX_PROCESSES_def)
  have s: "show_int 4242 = ''4242''"
    by (simp add: show_int_def show_nat.simps digit_char_def)
  have f2: "Fork 4242 \<in> set [Open (Some ''/dev/null'') O_RDONLY 3, Open (Some ''/dev/null'') O_WRONLY 3,
       Fcntl 3, Fcntl 3, Fork 4242, Printf (''background pid is 4242'' @ nl)]"
    by simp
  have A: "fst (cmdExecute env0 [Some ''sleep'', Some ''5'', Some ''&''] init_shell)
       = Returned (init_shell\<lparr>bgOpen := (bgOpen init_shell)[0 := 4242]\<rparr>)
   \<and> Printf (''background pid is 4242'' @ nl)
       \<in> set (snd (cmdExecute env0 [Some ''sleep'', Some ''5'', Some ''&''] init_shell))
   \<and> (\<forall>p w x. Waitpid p w x
         \<notin> set (snd (cmdExecute env0 [Some ''sleep'', Some ''5'', Some ''&''] init_shell)))"
    using background_launch_records_job [OF reachable.start launch_run bg f2 _ k]
    by (simp add: launch_run)
  have k2: "1 < MAX_PROCESSES" "bgOpen tomb_shell ! 1 = 0 \<or> bgOpen tomb_shell ! 1 = - 1"
    "\<forall>j<1. bgOpen tomb_shell ! j \<noteq> 0 \<and> bgOpen tomb_shell ! j \<noteq> - 1"
    by (simp_all add: MAX_PROCESSES_def tomb_shell_def)
  have t: "bgOpen tomb_shell ! 0 = 1000" "bgOpen tomb_shell ! 1 = 0"
    by (simp_all add: tomb_shell_def)
  have B: "fst (cmdExecute env0 [Some ''sleep'', Some ''5'', Some ''&''] tomb_shell)
       = Returned (tomb_shell\<lparr>bgOpen := (bgOpen tomb_shell)[1 := 4242]\<rparr>)"
    using background_launch_records_job [OF reachable_tomb_shell tomb_launch_run bg f2 _ k2]
    by (simp add: tomb_launch_run)
  from reachable.start bg f k(1) u A reachable_tomb_shell t B show ?thesis
    by (intro conjI) simp_all
qed

section \<open>The status builtin\<close>


lemma sleep_killed_run:
  "processArgs env_killed [Some ''sleep'', Some ''100''] init_shell
   = (Returned (init_shell\<lparr>termination := 9\<rparr>),
      [Fork 4242, Waitpid 4242 WBLOCK 4242, Printf (''terminated by signal 9'' @ nl)])"
  by (simp add: processArgs_def cmdExecute_def openFiles_defs parent_def waitResult_def
      env_killed_def env0_def argAt_def WIFEXITED_def WIFSIGNALED_def WTERMSIG_def
      show_int_def show_nat.simps digit_char_def)


section \<open>Foreground launches\<close>

text \<open>
  C7: for a foreground command whose fork succeeded with child pid \<open>c\<close>, \<^verbatim>\<open>cmdExecute\<close>
  returns after one \<^verbatim>\<open>waitpid\<close> call, a blocking one on exactly \<open>c\<close>. If the status word
  of that wait says the child exited, the exit code is set to the child's and the
  terminating signal to 0; if it says the child was killed by a signal, the terminating
  signal is set to that signal and the last thing done is to print it. The job table is
  not touched.
\<close>

theorem foreground_wait_outcome:
  assumes "cmdExecute e as s = (r, evs)" and "\<not> fst (isBackground as)"
    and "Fork c \<in> set evs" and "0 < c"
  shows "\<exists>s'. r = Returned s'
     \<and> Waitpid c WBLOCK (fst (waitpid_block e)) \<in> set evs
     \<and> (\<forall>p w x. Waitpid p w x \<in> set evs \<longrightarrow> p = c \<and> w = WBLOCK)
     \<and> bgOpen s' = bgOpen s
     \<and> (WIFEXITED (snd (waitpid_block e)) \<longrightarrow>
          status s' = WEXITSTATUS (snd (waitpid_block e)) \<and> termination s' = 0)
     \<and> (WIFSIGNALED (snd (waitpid_block e)) \<longrightarrow>
          termination s' = WTERMSIG (snd (waitpid_block e))
          \<and> last evs = Printf (''terminated by signal ''
                                @ show_int (WTERMSIG (snd (waitpid_block e))) @ nl))"
proof -
  from assms(1,3,4) obtain ev0 files pevs where
    "openFiles e (fst (isBackground as)) (isInputRedirected as) (isOutputRedirected as)
       (snd (isBackground as)) = (ev0, Some files)"
    and p: "parent e (fst (isBackground as)) c s = (r, pevs)"
    and evs: "evs = ev0 @ Fork c # pevs"
    by (rule cmdExecute_parent)
  note of = this(1)
  define wpid where "wpid = fst (waitpid_block e)"
  define ws where "ws = snd (waitpid_block e)"
  define s' where "s' = fst (waitResult wpid ws s)"
  from p assms(2) have r: "r = Returned s'"
    and pevs: "pevs = Waitpid c WBLOCK wpid # snd (waitResult wpid ws s)"
    by (simp_all add: parent_def split_beta s'_def wpid_def ws_def)
  from openFiles_events [OF of] have no0: "\<forall>p w x. Waitpid p w x \<notin> set ev0"
    by fastforce
  have nowr: "\<forall>p w x. Waitpid p w x \<notin> set (snd (waitResult wpid ws s))"
    by (simp add: waitResult_def Let_def split_beta)
  have a: "Waitpid c WBLOCK wpid \<in> set evs"
    by (simp add: evs pevs)
  have b: "\<forall>p w x. Waitpid p w x \<in> set evs \<longrightarrow> p = c \<and> w = WBLOCK"
    using no0 nowr by (auto simp: evs pevs)
  have t: "bgOpen s' = bgOpen s"
    by (simp add: s'_def waitResult_bgOpen)
  have x: "status s' = WEXITSTATUS ws \<and> termination s' = 0" if "WIFEXITED ws"
    by (simp add: s'_def waitResult_exited [OF that])
  have k: "termination s' = WTERMSIG ws
          \<and> last evs = Printf (''terminated by signal '' @ show_int (WTERMSIG ws) @ nl)"
    if "WIFSIGNALED ws"
    by (simp add: s'_def evs pevs waitResult_signaled [OF that])
  from r a b t x k show ?thesis
    unfolding wpid_def ws_def by blast
qed

lemma sleep_killed_exec:
  "cmdExecute env_killed [Some ''sleep'', Some ''100''] init_shell
   = (Returned (init_shell\<lparr>termination := 9\<rparr>),
      [Fork 4242, Waitpid 4242 WBLOCK 4242, Printf (''terminated by signal 9'' @ nl)])"
  using sleep_killed_run by (simp add: processArgs_def argAt_def)

lemma ls_after_kill_exec:
  "cmdExecute env0 [Some ''ls''] (init_shell\<lparr>termination := 9\<rparr>)
   = (Returned (init_shell\<lparr>status := 7, termination := 0\<rparr>),
      [Fork 4242, Waitpid 4242 WBLOCK 4242])"
  by (simp add: cmdExecute_def openFiles_defs parent_def waitResult_def env0_def
      WIFEXITED_def WIFSIGNALED_def WTERMSIG_def WEXITSTATUS_def drop_bit_eq_div init_shell_def)

text \<open>
  C7 at work: \<^verbatim>\<open>sleep 100\<close> killed by signal 9, and then \<^verbatim>\<open>ls\<close> exiting with code 7,
  which clears the 9.
\<close>

theorem foreground_wait_outcome_witness:
  "\<not> fst (isBackground [Some ''sleep'', Some ''100''])
   \<and> WIFSIGNALED (snd (waitpid_block env_killed)) \<and> WTERMSIG (snd (waitpid_block env_killed)) = 9
   \<and> cmdExecute env_killed [Some ''sleep'', Some ''100''] init_shell
       = (Returned (init_shell\<lparr>termination := 9\<rparr>),
          [Fork 4242, Waitpid 4242 WBLOCK 4242, Printf (''terminated by signal 9'' @ nl)])
   \<and> (\<exists>s'. Returned (init_shell\<lparr>termination := 9\<rparr>) = Returned s'
        \<and> bgOpen s' = bgOpen init_shell \<and> termination s' = 9)
   \<and> \<not> fst (isBackground [Some ''ls''])
   \<and> WIFEXITED (snd (waitpid_block env0)) \<and> WEXITSTATUS (snd (waitpid_block env0)) = 7
   \<and> cmdExecute env0 [Some ''ls''] (init_shell\<lparr>termination := 9\<rparr>)
       = (Returned (init_shell\<lparr>status := 7, termination := 0\<rparr>),
          [Fork 4242, Waitpid 4242 WBLOCK 4242])
   \<and> (\<exists>s'. Returned (init_shell\<lparr>status := 7, termination := 0\<rparr>) = Returned s'
        \<and> status s' = 7 \<and> termination s' = 0)"
proof -
  have bg: "\<not> fst (isBackground [Some ''sleep'', Some ''100''])" "\<not> fst (isBackground [Some ''ls''])"
    by simp_all
  have f: "Fork 4242 \<in> set [Fork 4242, Waitpid 4242 WBLOCK 4242,
                             Printf (''terminated by signal 9'' @ nl)]"
    "Fork 4242 \<in> set [Fork 4242, Waitpid 4242 WBLOCK 4242]"
    by simp_all
  have w: "WIFSIGNALED (snd (waitpid_block env_killed))"
    "WTERMSIG (snd (waitpid_block env_killed)) = 9"
    by (simp_all add: env_killed_def env0_def WIFSIGNALED_def WTERMSIG_def)
  have x: "WIFEXITED (snd (waitpid_block env0))" "WEXITSTATUS (snd (waitpid_block env0)) = 7"
    by (simp_all add: env0_def WIFEXITED_def WTERMSIG_def WEXITSTATUS_def drop_bit_eq_div)
  from foreground_wait_outcome [OF sleep_killed_exec bg(1) f(1)] w
  have A: "\<exists>s'. Returned (init_shell\<lparr>termination := 9\<rparr>) = Returned s'
        \<and> bgOpen s' = bgOpen init_shell \<and> termination s' = 9"
    by auto
  from foreground_wait_outcome [OF ls_after_kill_exec bg(2) f(2)] x
  have B: "\<exists>s'. Returned (init_shell\<lparr>status := 7, termination := 0\<rparr>) = Returned s'
        \<and> status s' = 7 \<and> termination s' = 0"
    by auto
  from bg(1) w sleep_killed_exec A bg(2) x ls_after_kill_exec B show ?thesis
    by (intro conjI)
qed

section \<open>Redirection targets and the arguments of the program\<close>






section \<open>What the user is told\<close>

lemma stdout_of_append: "stdout_of (xs @ ys) = stdout_of xs @ stdout_of ys"
  by (induction xs rule: stdout_of.induct) simp_all

lemma recordJob_free:
  assumes "\<exists>j<MAX_PROCESSES. bg ! j < 1"
  obtains k where "recordJob cpid bg 0 = Some (bg[k := cpid])"
proof -
  define k where "k = (LEAST j. j < MAX_PROCESSES \<and> bg ! j < 1)"
  have k: "k < MAX_PROCESSES \<and> bg ! k < 1"
    unfolding k_def using assms by (rule LeastI_ex)
  have "\<not> bg ! j < 1" if "0 \<le> j \<and> j < k" for j
  proof
    assume "bg ! j < 1"
    with that k have "j < MAX_PROCESSES \<and> bg ! j < 1"
      by simp
    then have "k \<le> j"
      unfolding k_def by (rule Least_le)
    with that show False by simp
  qed
  then have "recordJob cpid bg 0 = Some (bg[k := cpid])"
    using k by (intro recordJob_first) simp_all
  then show thesis
    by (rule that)
qed

text \<open>
  C2, as stated, fails: at a background launch the shell prints
  \<^verbatim>\<open>background pid is 4242\<close>, with the word \<^verbatim>\<open>is\<close>, not \<^verbatim>\<open>background pid 4242\<close>.
  And the five formats are not all the user sees: a failed redirection is reported as
  \<^verbatim>\<open>File Error: cannot open missing for input\<close>.
\<close>

theorem launch_report_differs_from_spec:
  "stdout_of (snd (cmdExecute env0 [Some ''sleep'', Some ''5'', Some ''&''] init_shell))
     = ''background pid is 4242'' @ nl
   \<and> stdout_of (snd (cmdExecute env0 [Some ''sleep'', Some ''5'', Some ''&''] init_shell))
     \<noteq> ''background pid 4242'' @ nl
   \<and> stdout_of (snd (cmdExecute env0 [Some ''sleep'', Some ''5'', Some ''&''] init_shell))
     \<noteq> ''background pid 4242''
   \<and> stdout_of (snd (cmdExecute env_open_fails [Some ''cat'', Some ''<'', Some ''missing'']
                        init_shell))
     = ''File Error: cannot open missing for input'' @ nl"
  by (simp add: launch_run cat_missing_run)

text \<open>
  C2, amended: everything the five situations of the spec's list write to standard output. A background
  completion seen by the sweep gives \<^verbatim>\<open>background pid P is done: exit value V\<close> when the
  job exited and \<^verbatim>\<open>background pid P is done: terminated by signal S\<close> when it was
  signalled; a signalled foreground command gives \<^verbatim>\<open>terminated by signal S\<close>; the status
  builtin gives \<^verbatim>\<open>exit value V\<close> when no signal is stored; a background launch that finds a
  free slot gives \<^verbatim>\<open>background pid is P\<close>. Each is one line, ended by a newline.
\<close>

theorem report_formats:
  "(bgOpen s ! i \<noteq> IS_PROCESS_FINISHED \<and> 0 < fst (waitpid_nohang e i)
      \<and> WIFEXITED (snd (waitpid_nohang e i)) \<longrightarrow>
        stdout_of (snd (reapSlot e i s))
        = ''background pid '' @ show_int (bgOpen s ! i) @ '' is done: exit value ''
          @ show_int (WEXITSTATUS (snd (waitpid_nohang e i))) @ nl)
   \<and> (bgOpen s ! i \<noteq> IS_PROCESS_FINISHED \<and> 0 < fst (waitpid_nohang e i)
      \<and> WIFSIGNALED (snd (waitpid_nohang e i)) \<longrightarrow>
        stdout_of (snd (reapSlot e i s))
        = ''background pid '' @ show_int (bgOpen s ! i) @ '' is done: terminated by signal ''
          @ show_int (WTERMSIG (snd (waitpid_nohang e i))) @ nl)
   \<and> (cmdExecute e as s = (r, evs) \<and> Fork c \<in> set evs \<and> 0 < c \<and> \<not> fst (isBackground as)
      \<and> WIFSIGNALED (snd (waitpid_block e)) \<longrightarrow>
        stdout_of evs
        = ''terminated by signal '' @ show_int (WTERMSIG (snd (waitpid_block e))) @ nl)
   \<and> (t \<le> 0 \<longrightarrow> stdout_of (cmdStatus v t) = ''exit value '' @ show_int v @ nl)
   \<and> (cmdExecute e as s = (r, evs) \<and> Fork c \<in> set evs \<and> 0 < c \<and> fst (isBackground as)
      \<and> (\<exists>j<MAX_PROCESSES. bgOpen s ! j < 1) \<longrightarrow>
        stdout_of evs = ''background pid is '' @ show_int c @ nl)"
proof (intro conjI impI)
  assume a: "bgOpen s ! i \<noteq> IS_PROCESS_FINISHED \<and> 0 < fst (waitpid_nohang e i)
      \<and> WIFEXITED (snd (waitpid_nohang e i))"
  then have "\<not> WIFSIGNALED (snd (waitpid_nohang e i))"
    by (simp add: WIFEXITED_not_WIFSIGNALED)
  with a show "stdout_of (snd (reapSlot e i s))
        = ''background pid '' @ show_int (bgOpen s ! i) @ '' is done: exit value ''
          @ show_int (WEXITSTATUS (snd (waitpid_nohang e i))) @ nl"
    by (simp add: reapSlot_def Let_def split_beta)
next
  assume a: "bgOpen s ! i \<noteq> IS_PROCESS_FINISHED \<and> 0 < fst (waitpid_nohang e i)
      \<and> WIFSIGNALED (snd (waitpid_nohang e i))"
  then have "\<not> WIFEXITED (snd (waitpid_nohang e i))"
    using WIFEXITED_not_WIFSIGNALED by blast
  with a show "stdout_of (snd (reapSlot e i s))
        = ''background pid '' @ show_int (bgOpen s ! i) @ '' is done: terminated by signal ''
          @ show_int (WTERMSIG (snd (waitpid_nohang e i))) @ nl"
    by (simp add: reapSlot_def Let_def split_beta)
next
  assume a: "cmdExecute e as s = (r, evs) \<and> Fork c \<in> set evs \<and> 0 < c \<and> \<not> fst (isBackground as)
      \<and> WIFSIGNALED (snd (waitpid_block e))"
  then obtain ev0 files pevs where
    of: "openFiles e (fst (isBackground as)) (isInputRedirected as) (isOutputRedirected as)
       (snd (isBackground as)) = (ev0, Some files)"
    and p: "parent e (fst (isBackground as)) c s = (r, pevs)"
    and evs: "evs = ev0 @ Fork c # pevs"
    by (elim conjE cmdExecute_parent)
  from a have sg: "WIFSIGNALED (snd (waitpid_block e))"
    by simp
  from p a have "pevs = Waitpid c WBLOCK (fst (waitpid_block e))
      # snd (waitResult (fst (waitpid_block e)) (snd (waitpid_block e)) s)"
    by (simp add: parent_def split_beta)
  then have "stdout_of pevs
      = ''terminated by signal '' @ show_int (WTERMSIG (snd (waitpid_block e))) @ nl"
    by (simp add: waitResult_signaled [OF sg] stdout_of_append)
  then show "stdout_of evs
      = ''terminated by signal '' @ show_int (WTERMSIG (snd (waitpid_block e))) @ nl"
    by (simp add: evs stdout_of_append openFiles_Some_silent [OF of])
next
  assume "t \<le> 0"
  then show "stdout_of (cmdStatus v t) = ''exit value '' @ show_int v @ nl"
    by (simp add: cmdStatus_def)
next
  assume a: "cmdExecute e as s = (r, evs) \<and> Fork c \<in> set evs \<and> 0 < c \<and> fst (isBackground as)
      \<and> (\<exists>j<MAX_PROCESSES. bgOpen s ! j < 1)"
  then obtain ev0 files pevs where
    of: "openFiles e (fst (isBackground as)) (isInputRedirected as) (isOutputRedirected as)
       (snd (isBackground as)) = (ev0, Some files)"
    and p: "parent e (fst (isBackground as)) c s = (r, pevs)"
    and evs: "evs = ev0 @ Fork c # pevs"
    by (elim conjE cmdExecute_parent)
  from a have "\<exists>j<MAX_PROCESSES. bgOpen s ! j < 1"
    by simp
  then obtain k where "recordJob c (bgOpen s) 0 = Some ((bgOpen s)[k := c])"
    by (rule recordJob_free)
  with p a have "pevs = [Printf (''background pid is '' @ show_int c @ nl)]"
    by (simp add: parent_def)
  then show "stdout_of evs = ''background pid is '' @ show_int c @ nl"
    by (simp add: evs stdout_of_append openFiles_Some_silent [OF of])
qed

text \<open>C2 at work: one run for each of the five formats.\<close>

theorem report_formats_witness:
  "stdout_of (snd (reapSlot env_sweep 2 sweep_shell))
     = ''background pid 12 is done: exit value 3'' @ nl
   \<and> stdout_of (snd (reapSlot env_sweep 3 sweep_shell))
     = ''background pid 13 is done: terminated by signal 9'' @ nl
   \<and> stdout_of (snd (cmdExecute env_killed [Some ''sleep'', Some ''100''] init_shell))
     = ''terminated by signal 9'' @ nl
   \<and> stdout_of (cmdStatus 7 0) = ''exit value 7'' @ nl
   \<and> stdout_of (snd (cmdExecute env0 [Some ''sleep'', Some ''5'', Some ''&''] init_shell))
     = ''background pid is 4242'' @ nl"
proof -
  have n: "show_int 12 = ''12''" "show_int 13 = ''13''" "show_int 3 = ''3''" "show_int 9 = ''9''"
    "show_int 7 = ''7''" "show_int 4242 = ''4242''"
    by (simp_all add: show_int_def show_nat.simps digit_char_def)
  have t: "bgOpen sweep_shell ! 2 = 12" "bgOpen sweep_shell ! 3 = 13"
    by (simp_all add: sweep_shell_def)
  have w: "waitpid_nohang env_sweep 2 = (12, 0x300)" "waitpid_nohang env_sweep 3 = (13, 9)"
    "waitpid_block env_killed = (4242, 9)"
    by (simp_all add: env_sweep_def env_killed_def env0_def)
  have m: "WIFEXITED 0x300" "WEXITSTATUS 0x300 = 3" "WIFSIGNALED 9" "WTERMSIG 9 = 9"
    by (simp_all add: WIFEXITED_def WIFSIGNALED_def WTERMSIG_def WEXITSTATUS_def drop_bit_eq_div)
  have A: "stdout_of (snd (reapSlot env_sweep 2 sweep_shell))
     = ''background pid 12 is done: exit value 3'' @ nl"
    using report_formats [where s = sweep_shell and i = 2 and e = env_sweep, THEN conjunct1]
    by (simp add: t w m n IS_PROCESS_FINISHED_def)
  have B: "stdout_of (snd (reapSlot env_sweep 3 sweep_shell))
     = ''background pid 13 is done: terminated by signal 9'' @ nl"
    using report_formats [where s = sweep_shell and i = 3 and e = env_sweep, THEN conjunct2, THEN conjunct1]
    by (simp add: t w m n IS_PROCESS_FINISHED_def)
  have C: "stdout_of (snd (cmdExecute env_killed [Some ''sleep'', Some ''100''] init_shell))
     = ''terminated by signal 9'' @ nl"
    using report_formats [where e = env_killed and as = "[Some ''sleep'', Some ''100'']"
        and s = init_shell and r = "Returned (init_shell\<lparr>termination := 9\<rparr>)"
        and evs = "[Fork 4242, Waitpid 4242 WBLOCK 4242, Printf (''terminated by signal 9'' @ nl)]"
        and c = 4242,
        THEN conjunct2, THEN conjunct2, THEN conjunct1]
    by (simp add: sleep_killed_exec w m n)
  have D: "stdout_of (cmdStatus 7 0) = ''exit value 7'' @ nl"
    using report_formats [where t = 0 and v = 7,
        THEN conjunct2, THEN conjunct2, THEN conjunct2, THEN conjunct1]
    by (simp add: n)
  have free: "\<exists>j<MAX_PROCESSES. bgOpen init_shell ! j < 1"
    by (intro exI [of _ 0]) (simp add: init_shell_def MAX_PROCESSES_def)
  have E: "stdout_of (snd (cmdExecute env0 [Some ''sleep'', Some ''5'', Some ''&''] init_shell))
     = ''background pid is 4242'' @ nl"
    using report_formats [where e = env0 and as = "[Some ''sleep'', Some ''5'', Some ''&'']"
        and s = init_shell
        and r = "Returned (init_shell\<lparr>bgOpen := (bgOpen init_shell)[0 := 4242]\<rparr>)"
        and evs = "[Open (Some ''/dev/null'') O_RDONLY 3, Open (Some ''/dev/null'') O_WRONLY 3,
          Fcntl 3, Fcntl 3, Fork 4242, Printf (''background pid is 4242'' @ nl)]"
        and c = 4242,
        THEN conjunct2, THEN conjunct2, THEN conjunct2, THEN conjunct2] free
    by (simp add: launch_run n)
  from A B C D E show ?thesis
    by (intro conjI)
qed

section \<open>A background launch into a full table\<close>

text \<open>
  C9: the table holds 100 running jobs (a state the shell reaches by one foreground
  command and 100 background launches) and the user types \<^verbatim>\<open>sleep 5 &\<close>. The fork
  succeeds, the loop over the table finds no slot and ends without returning, and the
  code after it reads \<^verbatim>\<open>wpid\<close> and \<^verbatim>\<open>waitStatus\<close>, which were never assigned. With -1
  and 9 in them the exit code becomes 1, the terminating signal 9, and a signal
  termination is reported; with 0 in both the exit code 7 is overwritten by 0.
\<close>

theorem full_table_launch_reads_unassigned:
  "cmdExecute env_garbage [Some ''sleep'', Some ''5'', Some ''&''] full_shell
   = (Returned (full_shell\<lparr>status := 1, termination := 9\<rparr>),
      [Open (Some ''/dev/null'') O_RDONLY 3, Open (Some ''/dev/null'') O_WRONLY 3,
       Fcntl 3, Fcntl 3, Fork 4242, Printf (''background pid is 4242'' @ nl),
       Perror ''wait failed'', Printf (''terminated by signal 9'' @ nl)])
   \<and> cmdExecute env0 [Some ''sleep'', Some ''5'', Some ''&''] full_shell
   = (Returned (full_shell\<lparr>status := 0, termination := 0\<rparr>),
      [Open (Some ''/dev/null'') O_RDONLY 3, Open (Some ''/dev/null'') O_WRONLY 3,
       Fcntl 3, Fcntl 3, Fork 4242, Printf (''background pid is 4242'' @ nl)])
   \<and> status full_shell = 7"
proof -
  have of: "openFiles env_garbage True False False [Some ''sleep'', Some ''5'', None]
        = ([Open (Some ''/dev/null'') O_RDONLY 3, Open (Some ''/dev/null'') O_WRONLY 3,
            Fcntl 3, Fcntl 3], Some (3, 3))"
    by (simp add: openFiles_defs env_garbage_def env0_def)
  have n: "show_int 4242 = ''4242''" "show_int 9 = ''9''"
    by (simp_all add: show_int_def show_nat.simps digit_char_def)
  have g: "fork_ret env_garbage = 4242" "uninit_wpid env_garbage = - 1"
    "uninit_waitStatus env_garbage = 9"
    "fork_ret env0 = 4242" "uninit_wpid env0 = 0" "uninit_waitStatus env0 = 0"
    by (simp_all add: env_garbage_def env0_def)
  have w: "waitResult (- 1) 9 full_shell
      = (full_shell\<lparr>status := 1, termination := 9\<rparr>,
         [Perror ''wait failed'', Printf (''terminated by signal 9'' @ nl)])"
    "waitResult 0 0 full_shell = (full_shell\<lparr>status := 0, termination := 0\<rparr>, [])"
    by (simp_all add: waitResult_def WIFEXITED_def WIFSIGNALED_def WTERMSIG_def WEXITSTATUS_def
        EXIT_FAILURE_def n)
  have A: "cmdExecute env_garbage [Some ''sleep'', Some ''5'', Some ''&''] full_shell
   = (Returned (full_shell\<lparr>status := 1, termination := 9\<rparr>),
      [Open (Some ''/dev/null'') O_RDONLY 3, Open (Some ''/dev/null'') O_WRONLY 3,
       Fcntl 3, Fcntl 3, Fork 4242, Printf (''background pid is 4242'' @ nl),
       Perror ''wait failed'', Printf (''terminated by signal 9'' @ nl)])"
    using of by (simp add: cmdExecute_def parent_def full_shell_no_free_slot g w n)
  have B: "cmdExecute env0 [Some ''sleep'', Some ''5'', Some ''&''] full_shell
   = (Returned (full_shell\<lparr>status := 0, termination := 0\<rparr>),
      [Open (Some ''/dev/null'') O_RDONLY 3, Open (Some ''/dev/null'') O_WRONLY 3,
       Fcntl 3, Fcntl 3, Fork 4242, Printf (''background pid is 4242'' @ nl)])"
    using launch_openFiles by (simp add: cmdExecute_def parent_def full_shell_no_free_slot g w n)
  have C: "status full_shell = 7"
    by (simp add: full_shell_def filled_def)
  from A B C show ?thesis
    by (intro conjI)
qed

end
